theory Spec2Isabelle
  imports Main
begin

section \<open>Text, time and the Python library functions the scrapers call\<close>

text \<open>
  A Python \<^verbatim>\<open>str\<close> is a sequence of Unicode code points, and \<^verbatim>\<open>len\<close>,
  \<^verbatim>\<open>split\<close> and \<^verbatim>\<open>zfill\<close> count code points. Text is therefore a list of
  code points; \<open>asc\<close> writes an ASCII literal.
\<close>

type_synonym pystr = "nat list"

definition asc :: "string \<Rightarrow> pystr" where
  "asc s = map of_char s"

text \<open>
  \<^verbatim>\<open>str.isspace\<close> for one code point: the characters \<^verbatim>\<open>str.strip()\<close> and
  \<^verbatim>\<open>str.split()\<close> (called without argument) treat as separators.
\<close>

definition py_isspace :: "nat \<Rightarrow> bool" where
  "py_isspace c \<longleftrightarrow>
     (9 \<le> c \<and> c \<le> 13) \<or> (28 \<le> c \<and> c \<le> 32) \<or> c = 133 \<or> c = 160 \<or> c = 5760 \<or>
     (8192 \<le> c \<and> c \<le> 8202) \<or> c = 8232 \<or> c = 8233 \<or> c = 8239 \<or> c = 8287 \<or> c = 12288"

definition py_strip :: "pystr \<Rightarrow> pystr" where
  "py_strip s = rev (dropWhile py_isspace (rev (dropWhile py_isspace s)))"

text \<open>\<^verbatim>\<open>s.split()\<close>: the maximal runs of non-space characters, in order.\<close>

fun py_split_acc :: "pystr \<Rightarrow> pystr \<Rightarrow> pystr list" where
  "py_split_acc w [] = (if w = [] then [] else [w])"
| "py_split_acc w (c # cs) =
     (if py_isspace c then (if w = [] then py_split_acc [] cs else w # py_split_acc [] cs)
      else py_split_acc (w @ [c]) cs)"

definition py_split :: "pystr \<Rightarrow> pystr list" where
  "py_split s = py_split_acc [] s"

text \<open>
  \<^verbatim>\<open>s.zfill(width)\<close>: zeros on the left up to \<open>width\<close> characters, after a leading
  sign if there is one.
\<close>

definition zfill :: "pystr \<Rightarrow> nat \<Rightarrow> pystr" where
  "zfill s width =
     (if width \<le> length s then s
      else case s of
             [] \<Rightarrow> replicate width 48
           | c # cs \<Rightarrow>
               if c = 43 \<or> c = 45 then c # replicate (width - length s) 48 @ cs
               else replicate (width - length s) 48 @ s)"

text \<open>
  A naive \<^verbatim>\<open>datetime\<close> value, and \<^verbatim>\<open>datetime.isoformat()\<close> on it. The fields of
  a \<^verbatim>\<open>datetime\<close> are in range (year 1 to 9999, month 1 to 12, and so on), where
  \<open>fmt_d k\<close> is the \<^verbatim>\<open>%0kd\<close> of the library.
\<close>

record datetime =
  year :: nat
  month :: nat
  day :: nat
  hour :: nat
  minute :: nat
  second :: nat
  microsecond :: nat

fun fmt_d :: "nat \<Rightarrow> nat \<Rightarrow> pystr" where
  "fmt_d 0 n = []"
| "fmt_d (Suc k) n = fmt_d k (n div 10) @ [48 + n mod 10]"

definition isoformat :: "datetime \<Rightarrow> pystr" where
  "isoformat dt =
     fmt_d 4 (year dt) @ asc ''-'' @ fmt_d 2 (month dt) @ asc ''-'' @ fmt_d 2 (day dt) @ asc ''T'' @
     fmt_d 2 (hour dt) @ asc '':'' @ fmt_d 2 (minute dt) @ asc '':'' @ fmt_d 2 (second dt) @
     (if microsecond dt = 0 then [] else asc ''.'' @ fmt_d 6 (microsecond dt))"

text \<open>
  The clock: \<open>clock n\<close> is what the \<open>n\<close>-th call of \<^verbatim>\<open>datetime.now()\<close> returns.
  A function that may read the clock takes the number of readings so far and returns the
  number after it.
\<close>

type_synonym clock = "nat \<Rightarrow> datetime"

definition now_iso :: "clock \<Rightarrow> nat \<Rightarrow> pystr \<times> nat" where
  "now_iso clk t = (isoformat (clk t), Suc t)"

text \<open>
  \<^verbatim>\<open>dt.strftime('%Y-%m-%d_%H_%M_%S')\<close>, the time part of an article's file name
  (for the years from 1000 on, where every platform prints four digits).
\<close>

definition strftime_file :: "datetime \<Rightarrow> pystr" where
  "strftime_file dt =
     fmt_d 4 (year dt) @ asc ''-'' @ fmt_d 2 (month dt) @ asc ''-'' @ fmt_d 2 (day dt) @ asc ''_'' @
     fmt_d 2 (hour dt) @ asc ''_'' @ fmt_d 2 (minute dt) @ asc ''_'' @ fmt_d 2 (second dt)"

text \<open>
  \<^verbatim>\<open>s.replace(old, new)\<close> for a non-empty \<open>old\<close>, the only way the scrapers call
  it: the occurrences of \<open>old\<close> from the left, not overlapping.
\<close>

function py_replace :: "pystr \<Rightarrow> pystr \<Rightarrow> pystr \<Rightarrow> pystr" where
  "py_replace old new [] = []"
| "py_replace old new (c # cs) =
     (if old \<noteq> [] \<and> take (length old) (c # cs) = old
      then new @ py_replace old new (drop (length old) (c # cs))
      else c # py_replace old new cs)"
  by pat_completeness auto
termination
  by (relation "measure (\<lambda>(old, new, s). length s)") auto

text \<open>\<^verbatim>\<open>sub in s\<close> and \<^verbatim>\<open>s.startswith(p)\<close> on strings.\<close>

definition py_startswith :: "pystr \<Rightarrow> pystr \<Rightarrow> bool" where
  "py_startswith s p \<longleftrightarrow> take (length p) s = p"

fun py_contains :: "pystr \<Rightarrow> pystr \<Rightarrow> bool" where
  "py_contains sub [] = (sub = [])"
| "py_contains sub (c # cs) = (py_startswith (c # cs) sub \<or> py_contains sub cs)"

text \<open>
  \<^verbatim>\<open>text.encode()\<close>: UTF-8, which raises \<^verbatim>\<open>UnicodeEncodeError\<close> on a surrogate
  code point (a \<^verbatim>\<open>str\<close> decoded from JSON can hold one).
\<close>

datatype error = UnicodeEncodeError | UnicodeDecodeError | JSONDecodeError | OSError

definition utf8_char :: "nat \<Rightarrow> nat list option" where
  "utf8_char c =
     (if c < 128 then Some [c]
      else if c < 2048 then Some [192 + c div 64, 128 + c mod 64]
      else if 55296 \<le> c \<and> c \<le> 57343 then None
      else if c < 65536 then Some [224 + c div 4096, 128 + (c div 64) mod 64, 128 + c mod 64]
      else if c < 1114112 then
        Some [240 + c div 262144, 128 + (c div 4096) mod 64, 128 + (c div 64) mod 64, 128 + c mod 64]
      else None)"

fun utf8_encode :: "pystr \<Rightarrow> error + nat list" where
  "utf8_encode [] = Inr []"
| "utf8_encode (c # cs) =
     (case utf8_char c of
        None \<Rightarrow> Inl UnicodeEncodeError
      | Some bs \<Rightarrow> (case utf8_encode cs of Inl e \<Rightarrow> Inl e | Inr rest \<Rightarrow> Inr (bs @ rest)))"

text \<open>\<^verbatim>\<open>.hexdigest()\<close>: two lower-case hexadecimal digits for each byte of a digest.\<close>

definition hex_digit :: "nat \<Rightarrow> nat" where
  "hex_digit n = (if n < 10 then 48 + n else 87 + n)"

definition hexdigest :: "nat list \<Rightarrow> pystr" where
  "hexdigest bs = concat (map (\<lambda>b. [hex_digit (b div 16), hex_digit (b mod 16)]) bs)"

text \<open>
  What lies outside the repository and is fixed during a run: the digest function of
  \<^verbatim>\<open>hashlib.md5\<close>, the two date parsers of the library (\<open>None\<close> where they raise
  \<^verbatim>\<open>ValueError\<close>), the clock, the file names that can be opened for writing
  (elsewhere \<^verbatim>\<open>open(name, 'w')\<close> raises \<^verbatim>\<open>OSError\<close> and changes nothing),
  and the file names into which a dump completes (elsewhere the write raises
  \<^verbatim>\<open>OSError\<close> after the file has been opened, as on a full disk).
\<close>

record env =
  md5 :: "nat list \<Rightarrow> nat list"
  strptime :: "pystr \<Rightarrow> pystr \<Rightarrow> datetime option"
  fromisoformat :: "pystr \<Rightarrow> datetime option"
  clock :: clock
  writable :: "pystr \<Rightarrow> bool"
  storable :: "pystr \<Rightarrow> bool"

text \<open>
  \<^verbatim>\<open>get_md5_hash(text)\<close> of hirunews and news_first and \<^verbatim>\<open>encode_url(url)\<close> of
  Lankadeepa have the same body, \<^verbatim>\<open>hashlib.md5(text.encode()).hexdigest()\<close>.
\<close>

definition get_md5_hash :: "env \<Rightarrow> pystr \<Rightarrow> error + pystr" where
  "get_md5_hash E text =
     (case utf8_encode text of Inl e \<Rightarrow> Inl e | Inr bs \<Rightarrow> Inr (hexdigest (md5 E bs)))"

definition encode_url :: "env \<Rightarrow> pystr \<Rightarrow> error + pystr" where
  "encode_url E url =
     (case utf8_encode url of Inl e \<Rightarrow> Inl e | Inr bs \<Rightarrow> Inr (hexdigest (md5 E bs)))"

section \<open>Lankadeepa: \<^verbatim>\<open>parse_sinhala_date\<close>\<close>

text \<open>The twelve Sinhala month names of \<^verbatim>\<open>sinhala_months\<close>, as code points.\<close>

definition sinhala_months :: "(pystr \<times> pystr) list" where
  "sinhala_months =
     [([3490, 3505, 3520, 3535, 3515, 3538], asc ''01''),
      ([3508, 3545, 3510, 3515, 3520, 3535, 3515, 3538], asc ''02''),
      ([3512, 3535, 3515, 3530, 3501, 3540], asc ''03''),
      ([3461, 3508, 3530, 8205, 3515, 3546, 3517, 3530], asc ''04''),
      ([3512, 3536, 3514, 3538], asc ''05''),
      ([3490, 3540, 3505, 3538], asc ''06''),
      ([3490, 3542, 3517, 3538], asc ''07''),
      ([3461, 3484, 3549, 3523, 3530, 3501, 3540], asc ''08''),
      ([3523, 3536, 3508, 3530, 3501, 3536, 3512, 3530, 3510, 3515, 3530], asc ''09''),
      ([3476, 3482, 3530, 3501, 3549, 3510, 3515, 3530], asc ''10''),
      ([3505, 3548, 3520, 3536, 3512, 3530, 3510, 3515, 3530], asc ''11''),
      ([3503, 3545, 3523, 3536, 3512, 3530, 3510, 3515, 3530], asc ''12'')]"

text \<open>
  \<^verbatim>\<open>parse_sinhala_date(date_text)\<close>. On a \<^verbatim>\<open>str\<close> nothing in the \<^verbatim>\<open>try\<close>
  block raises, so the \<^verbatim>\<open>except\<close> branch has no case here; with fewer than four
  parts control falls through to \<^verbatim>\<open>datetime.now().isoformat()\<close>.
\<close>

definition parse_sinhala_date :: "env \<Rightarrow> nat \<Rightarrow> pystr \<Rightarrow> pystr \<times> nat" where
  "parse_sinhala_date E t date_text =
     (let parts = py_split (py_strip date_text) in
      if 4 \<le> length parts then
        let year_p = parts ! 0;
            month_sinhala = parts ! 1;
            day_p = parts ! 3;
            month_num = (case map_of sinhala_months month_sinhala of
                           Some m \<Rightarrow> m | None \<Rightarrow> asc ''01'')
        in (year_p @ asc ''-'' @ month_num @ asc ''-'' @ zfill day_p 2 @ asc ''T00:00:00'', t)
      else now_iso (clock E) t)"

text \<open>
  A well-formed ISO timestamp of the form \<^verbatim>\<open>YYYY-MM-DDTHH:MM:SS\<close> that the
  scraper's documentation shows (\<^verbatim>\<open>2025-06-26T08:45:42\<close>): nineteen characters,
  ASCII digits around the separators, and fields that denote a date and a time of day
  (year 1 to 9999, a day that the month has, hour below 24, minute and second below 60).
  These are the strings of that form which \<^verbatim>\<open>datetime.fromisoformat\<close>, with which
  the scrapers read a timestamp back, accepts. \<open>parse_ymdhms sep\<close> reads the fields
  of such a string with the separator \<open>sep\<close> between date and time.
\<close>

definition is_digit :: "nat \<Rightarrow> bool" where
  "is_digit c \<longleftrightarrow> 48 \<le> c \<and> c \<le> 57"

fun dec :: "nat \<Rightarrow> pystr \<Rightarrow> nat option" where
  "dec n [] = Some n"
| "dec n (c # cs) = (if is_digit c then dec (10 * n + (c - 48)) cs else None)"

definition parse_ymdhms :: "nat \<Rightarrow> pystr \<Rightarrow> datetime option" where
  "parse_ymdhms sep s =
     (if length s = 19 \<and> s ! 4 = 45 \<and> s ! 7 = 45 \<and> s ! 10 = sep \<and> s ! 13 = 58 \<and> s ! 16 = 58 then
        (case (dec 0 (take 4 s), dec 0 (take 2 (drop 5 s)), dec 0 (take 2 (drop 8 s)),
               dec 0 (take 2 (drop 11 s)), dec 0 (take 2 (drop 14 s)), dec 0 (take 2 (drop 17 s))) of
           (Some y, Some mo, Some d, Some h, Some mi, Some sec) \<Rightarrow>
             Some \<lparr>year = y, month = mo, day = d, hour = h, minute = mi, second = sec,
                   microsecond = 0\<rparr>
         | _ \<Rightarrow> None)
      else None)"

definition leap_year :: "nat \<Rightarrow> bool" where
  "leap_year y = (if y mod 400 = 0 then True else if y mod 100 = 0 then False else y mod 4 = 0)"

definition days_in_month :: "nat \<Rightarrow> nat \<Rightarrow> nat" where
  "days_in_month y m =
     (if m = 2 then (if leap_year y then 29 else 28)
      else if m = 4 \<or> m = 6 \<or> m = 9 \<or> m = 11 then 30 else 31)"

definition valid_datetime :: "datetime \<Rightarrow> bool" where
  "valid_datetime dt \<longleftrightarrow>
     1 \<le> year dt \<and> year dt \<le> 9999 \<and> 1 \<le> month dt \<and> month dt \<le> 12 \<and>
     1 \<le> day dt \<and> day dt \<le> days_in_month (year dt) (month dt) \<and>
     hour dt < 24 \<and> minute dt < 60 \<and> second dt < 60 \<and> microsecond dt < 1000000"

definition iso_wellformed :: "pystr \<Rightarrow> bool" where
  "iso_wellformed s = (case parse_ymdhms 84 s of Some dt \<Rightarrow> valid_datetime dt | None \<Rightarrow> False)"

section \<open>The partition directory and the Seen-Set file\<close>

text \<open>
  Every file operation of a crawl of one category addresses the directory
  \<^verbatim>\<open>data/<source>/<category>/\<close>. The directory is a map from file names to contents.
  A content is classified by what \<^verbatim>\<open>open(name, 'r', encoding='utf-8')\<close> followed by
  \<^verbatim>\<open>json.load\<close> does with it: the bytes are not UTF-8 (\<^verbatim>\<open>UnicodeDecodeError\<close>), the
  text is not a JSON document (\<^verbatim>\<open>JSONDecodeError\<close>; an empty file is one), or it is
  one of the two kinds of document the scrapers write, an array of strings and an
  object with string values.
\<close>

datatype file_content =
  NotUtf8 | NotJson | JsonStrList "pystr list" | JsonStrObj "(pystr \<times> pystr) list"

type_synonym directory = "pystr \<rightharpoonup> file_content"

text \<open>
  \<^verbatim>\<open>with open(name, 'w', encoding='utf-8') as f: json.dump(doc, f, ensure_ascii=False, ...)\<close>:
  opening for writing creates or truncates the file under its own name, then the
  document is written to it. The write raises \<^verbatim>\<open>UnicodeEncodeError\<close> where a string
  of the document has no UTF-8 encoding, and \<^verbatim>\<open>OSError\<close> where the file cannot be
  stored; in both cases the file has been opened already and is left empty or cut
  short, which is no JSON document. The result is the exception, if any, and the
  directory after the call. \<open>write_json_steps\<close> lists the successive states of the
  directory.
\<close>

definition encodable :: "pystr \<Rightarrow> bool" where
  "encodable s = (case utf8_encode s of Inl e \<Rightarrow> False | Inr bs \<Rightarrow> True)"

fun doc_encodable :: "file_content \<Rightarrow> bool" where
  "doc_encodable (JsonStrList xs) = list_all encodable xs"
| "doc_encodable (JsonStrObj kvs) = list_all (\<lambda>kv. encodable (fst kv) \<and> encodable (snd kv)) kvs"
| "doc_encodable NotUtf8 = True"
| "doc_encodable NotJson = True"

definition open_w :: "env \<Rightarrow> directory \<Rightarrow> pystr \<Rightarrow> error + directory" where
  "open_w E d name = (if writable E name then Inr (d(name \<mapsto> NotJson)) else Inl OSError)"

definition dump_json :: "env \<Rightarrow> directory \<Rightarrow> pystr \<Rightarrow> file_content \<Rightarrow> error option \<times> directory" where
  "dump_json E d name doc =
     (if doc_encodable doc
      then (if storable E name then (None, d(name \<mapsto> doc)) else (Some OSError, d(name \<mapsto> NotJson)))
      else (Some UnicodeEncodeError, d(name \<mapsto> NotJson)))"

definition write_json_steps :: "env \<Rightarrow> directory \<Rightarrow> pystr \<Rightarrow> file_content \<Rightarrow> directory list" where
  "write_json_steps E d name doc =
     (case open_w E d name of
        Inl e \<Rightarrow> [d]
      | Inr d1 \<Rightarrow>
          (case dump_json E d1 name doc of
             (Some e, d2) \<Rightarrow> [d, d2]
           | (None, d2) \<Rightarrow> [d, d1, d2]))"

definition write_json :: "env \<Rightarrow> directory \<Rightarrow> pystr \<Rightarrow> file_content \<Rightarrow> error option \<times> directory" where
  "write_json E d name doc =
     (case open_w E d name of Inl e \<Rightarrow> (Some e, d) | Inr d1 \<Rightarrow> dump_json E d1 name doc)"

text \<open>
  A Python \<^verbatim>\<open>set\<close> of strings is a list without repetition; the order in which
  \<^verbatim>\<open>list(ids)\<close> enumerates a set is not specified by Python and nothing below
  depends on it.
\<close>

definition set_add :: "pystr \<Rightarrow> pystr list \<Rightarrow> pystr list" where
  "set_add x xs = (if x \<in> set xs then xs else xs @ [x])"

definition seen_file :: pystr where
  "seen_file = asc ''existing_ids.json''"

text \<open>
  \<^verbatim>\<open>load_existing_ids\<close> of hirunews and of news_first (the same body): the file is
  read inside \<^verbatim>\<open>try\<close>, and \<^verbatim>\<open>except (json.JSONDecodeError, FileNotFoundError)\<close>
  returns the empty set. \<^verbatim>\<open>set(...)\<close> of a JSON object is the set of its keys.
\<close>

definition load_existing_ids :: "directory \<Rightarrow> error + pystr list" where
  "load_existing_ids d =
     (case d seen_file of
        None \<Rightarrow> Inr []
      | Some NotUtf8 \<Rightarrow> Inl UnicodeDecodeError
      | Some NotJson \<Rightarrow> Inr []
      | Some (JsonStrList xs) \<Rightarrow> Inr (remdups xs)
      | Some (JsonStrObj kvs) \<Rightarrow> Inr (remdups (map fst kvs)))"

text \<open>\<^verbatim>\<open>load_existing_ids\<close> of Lankadeepa: the same read with no \<^verbatim>\<open>try\<close>.\<close>

definition lk_load_existing_ids :: "directory \<Rightarrow> error + pystr list" where
  "lk_load_existing_ids d =
     (case d seen_file of
        None \<Rightarrow> Inr []
      | Some NotUtf8 \<Rightarrow> Inl UnicodeDecodeError
      | Some NotJson \<Rightarrow> Inl JSONDecodeError
      | Some (JsonStrList xs) \<Rightarrow> Inr (remdups xs)
      | Some (JsonStrObj kvs) \<Rightarrow> Inr (remdups (map fst kvs)))"

text \<open>
  \<^verbatim>\<open>save_existing_ids\<close>, the same in the three scrapers: the directory is made if
  missing and \<^verbatim>\<open>list(ids)\<close> is dumped into \<^verbatim>\<open>existing_ids.json\<close>.
\<close>

definition save_existing_ids_steps :: "env \<Rightarrow> directory \<Rightarrow> pystr list \<Rightarrow> directory list" where
  "save_existing_ids_steps E d ids = write_json_steps E d seen_file (JsonStrList ids)"

definition save_existing_ids :: "env \<Rightarrow> directory \<Rightarrow> pystr list \<Rightarrow> error option \<times> directory" where
  "save_existing_ids E d ids = write_json E d seen_file (JsonStrList ids)"

section \<open>What a run does, in order\<close>

text \<open>
  The state a run threads through its calls: the partition directory, the number of
  clock readings, and the actions so far, oldest first: a listing page requested from the
  site, an article page fetched, an article record written (file name and article id,
  where the scrapers print their \<^verbatim>\<open>Saved\<close> line), an id added to the in-memory
  Seen-Set, a candidate reported as existing, the Seen-Set written to its file.
\<close>

datatype event =
  Requested nat | Fetched pystr | Wrote pystr pystr | Marked pystr | Skipped pystr
  | Flushed "pystr list"

record world =
  files :: directory
  ticks :: nat
  trace :: "event list"

record NewsArticle =
  id_str :: pystr
  source :: pystr
  headline :: pystr
  content :: pystr
  timestamp :: pystr
  url :: pystr

text \<open>A JSON object with string values, and \<^verbatim>\<open>d.get(key, default)\<close> on it.\<close>

type_synonym article_data = "(pystr \<times> pystr) list"

definition dict_get :: "article_data \<Rightarrow> pystr \<Rightarrow> pystr \<Rightarrow> pystr" where
  "dict_get d k dflt = (case map_of d k of Some v \<Rightarrow> v | None \<Rightarrow> dflt)"

section \<open>hirunews\<close>

text \<open>
  \<^verbatim>\<open>parse_article(article_data, category)\<close>. A date text that
  \<^verbatim>\<open>strptime\<close> rejects is replaced by \<^verbatim>\<open>datetime.now()\<close>.
\<close>

definition parse_article :: "env \<Rightarrow> nat \<Rightarrow> article_data \<Rightarrow> pystr \<Rightarrow> (error + NewsArticle) \<times> nat" where
  "parse_article E t article_data category =
     (let seourltitle = dict_get article_data (asc ''seourltitle'') [] in
      case get_md5_hash E seourltitle of
        Inl e \<Rightarrow> (Inl e, t)
      | Inr article_id \<Rightarrow>
          let timestamp_str = dict_get article_data (asc ''sinhala_added_date'') [];
              (ts, t') = (case strptime E timestamp_str (asc ''%Y-%m-%d %H:%M:%S'') of
                            Some dt \<Rightarrow> (dt, t)
                          | None \<Rightarrow> (clock E t, Suc t))
          in (Inr \<lparr>id_str = article_id,
                   source = asc ''hirunews'',
                   headline = dict_get article_data (asc ''sinhala_title'') [],
                   content = dict_get article_data (asc ''sinhala_story'') [],
                   timestamp = isoformat ts,
                   url = asc ''https://hirunews.lk/'' @ seourltitle\<rparr>, t'))"

text \<open>
  \<^verbatim>\<open>save_article(article, category)\<close>: the file name is made of the article's
  timestamp and id; the result is the file name written.
\<close>

definition article_dict :: "NewsArticle \<Rightarrow> pystr \<Rightarrow> (pystr \<times> pystr) list" where
  "article_dict article category =
     [(asc ''id'', id_str article), (asc ''source'', source article),
      (asc ''headline'', headline article), (asc ''content'', content article),
      (asc ''timestamp'', timestamp article), (asc ''url'', url article),
      (asc ''category'', category)]"

definition save_article :: "env \<Rightarrow> world \<Rightarrow> NewsArticle \<Rightarrow> pystr \<Rightarrow> (error + pystr) \<times> world" where
  "save_article E w article category =
     (let (dt, t') = (case fromisoformat E (py_replace (asc ''Z'') (asc ''+00:00'') (timestamp article)) of
                        Some d \<Rightarrow> (d, ticks w)
                      | None \<Rightarrow> (clock E (ticks w), Suc (ticks w)));
          filename = strftime_file dt @ asc ''_'' @ id_str article @ asc ''.json''
      in case write_json E (files w) filename (JsonStrObj (article_dict article category)) of
           (Some e, d) \<Rightarrow> (Inl e, w\<lparr>files := d, ticks := t'\<rparr>)
         | (None, d) \<Rightarrow> (Inr filename,
                        w\<lparr>files := d, ticks := t',
                          trace := trace w @ [Wrote filename (id_str article)]\<rparr>))"

text \<open>
  The variables of \<^verbatim>\<open>scrape_category\<close>, and the body of its inner loop over the
  articles of one page. Whatever \<^verbatim>\<open>parse_article\<close> or \<^verbatim>\<open>save_article\<close> raises is
  caught by \<^verbatim>\<open>except Exception\<close> and the loop goes on with the next article.
\<close>

record hiru_state =
  hw :: world
  existing_ids :: "pystr list"
  new_ids :: "pystr list"
  page_new_articles :: nat
  total_new_articles :: nat

definition hiru_article_step :: "env \<Rightarrow> pystr \<Rightarrow> hiru_state \<Rightarrow> article_data \<Rightarrow> hiru_state" where
  "hiru_article_step E category st article_data =
     (case parse_article E (ticks (hw st)) article_data category of
        (Inl e, t') \<Rightarrow> st\<lparr>hw := (hw st)\<lparr>ticks := t'\<rparr>\<rparr>
      | (Inr article, t') \<Rightarrow>
          if id_str article \<in> set (existing_ids st)
          then st\<lparr>hw := (hw st)\<lparr>ticks := t', trace := trace (hw st) @ [Skipped (id_str article)]\<rparr>\<rparr>
          else
            (case save_article E ((hw st)\<lparr>ticks := t'\<rparr>) article category of
               (Inl e, w') \<Rightarrow> st\<lparr>hw := w'\<rparr>
             | (Inr filename, w') \<Rightarrow>
                 st\<lparr>hw := w'\<lparr>trace := trace w' @ [Marked (id_str article)]\<rparr>,
                    new_ids := set_add (id_str article) (new_ids st),
                    existing_ids := set_add (id_str article) (existing_ids st),
                    page_new_articles := page_new_articles st + 1,
                    total_new_articles := total_new_articles st + 1\<rparr>))"

text \<open>
  The loop \<^verbatim>\<open>for page in range(1, max_pages + 1)\<close> from page \<open>page\<close> with \<open>n\<close> pages
  left. \<open>api category page\<close> is what \<^verbatim>\<open>fetch_news_from_api\<close> returns, the empty list
  when the request or the decoding failed.
\<close>

type_synonym hiru_api = "pystr \<Rightarrow> nat \<Rightarrow> article_data list"

fun hiru_page_loop :: "env \<Rightarrow> hiru_api \<Rightarrow> pystr \<Rightarrow> nat \<Rightarrow> nat \<Rightarrow> hiru_state \<Rightarrow> hiru_state" where
  "hiru_page_loop E api category page 0 st = st"
| "hiru_page_loop E api category page (Suc n) st =
     (let st1 = st\<lparr>hw := (hw st)\<lparr>trace := trace (hw st) @ [Requested page]\<rparr>\<rparr>;
          articles_data = api category page
      in if articles_data = [] then st1
         else
           let st2 = foldl (hiru_article_step E category) (st1\<lparr>page_new_articles := 0\<rparr>) articles_data
           in if page_new_articles st2 = 0 then st2
              else hiru_page_loop E api category (Suc page) n st2)"

text \<open>
  \<^verbatim>\<open>scrape_category(category, max_pages)\<close>: the number of new articles, or the
  exception that left the function, and the state after it.
\<close>

definition scrape_category :: "env \<Rightarrow> hiru_api \<Rightarrow> world \<Rightarrow> pystr \<Rightarrow> nat \<Rightarrow> (error + nat) \<times> world" where
  "scrape_category E api w category max_pages =
     (case load_existing_ids (files w) of
        Inl e \<Rightarrow> (Inl e, w)
      | Inr ids \<Rightarrow>
          let st = hiru_page_loop E api category 1 max_pages
                     \<lparr>hw = w, existing_ids = ids, new_ids = [],
                      page_new_articles = 0, total_new_articles = 0\<rparr>
          in if new_ids st \<noteq> []
             then (case save_existing_ids E (files (hw st)) (existing_ids st) of
                     (Some e, d) \<Rightarrow> (Inl e, (hw st)\<lparr>files := d\<rparr>)
                   | (None, d) \<Rightarrow>
                       (Inr (total_new_articles st),
                        (hw st)\<lparr>files := d, trace := trace (hw st) @ [Flushed (existing_ids st)]\<rparr>))
             else (Inr (total_new_articles st), hw st))"

section \<open>Lankadeepa\<close>

text \<open>
  The site as the scraper sees it. A listing page is the list of its article
  containers, each with the \<^verbatim>\<open>href\<close> of its first link and the text of its
  timestamp span where they exist; \<open>None\<close> stands for a page that
  \<^verbatim>\<open>get_category_page\<close> could not fetch. An article page gives the headline, the
  date part of the header and the content that \<^verbatim>\<open>scrape_article\<close> extracts from
  the HTML; \<open>None\<close> stands for a \<^verbatim>\<open>RequestException\<close>.
\<close>

record lk_container =
  href :: "pystr option"
  timec :: "pystr option"

record lk_page =
  pg_headline :: pystr
  pg_date_part :: "pystr option"
  pg_content :: pystr

record lk_site =
  listing :: "pystr \<Rightarrow> nat \<Rightarrow> lk_container list option"
  article_page :: "pystr \<Rightarrow> lk_page option"

text \<open>The truth value of an optional string: \<^verbatim>\<open>None\<close> and \<^verbatim>\<open>""\<close> are false.\<close>

definition truthy :: "pystr option \<Rightarrow> bool" where
  "truthy x = (case x of None \<Rightarrow> False | Some s \<Rightarrow> s \<noteq> [])"

definition lk_valid_href :: "pystr \<Rightarrow> bool" where
  "lk_valid_href h \<longleftrightarrow>
     py_startswith h (asc ''https://www.lankadeepa.lk/'') \<and>
     list_ex (\<lambda>c. py_contains c h)
       (map asc [''latest_news'', ''news'', ''politics'', ''sports'', ''foreign'', ''local'',
                 ''business'']) \<and>
     list_all (\<lambda>k. \<not> py_contains k h) (map asc [''page='', ''category='', ''/you_may_also_like/''])"

text \<open>
  \<^verbatim>\<open>extract_article_urls_with_timestamps\<close>: the loop over the containers, with the
  list \<^verbatim>\<open>articles_data\<close> of pairs of a URL and a timestamp built so far.
\<close>

type_synonym lk_item = "pystr \<times> pystr option"

definition extract_step :: "env \<Rightarrow> lk_item list \<times> nat \<Rightarrow> lk_container \<Rightarrow> lk_item list \<times> nat" where
  "extract_step E acc container =
     (case acc of (articles_data, t) \<Rightarrow>
        case href container of
          None \<Rightarrow> (articles_data, t)
        | Some h \<Rightarrow>
            if lk_valid_href h then
              (case (case timec container of
                       None \<Rightarrow> (None, t)
                     | Some timestamp_text \<Rightarrow>
                         (case parse_sinhala_date E t timestamp_text of (s, t') \<Rightarrow> (Some s, t'))) of
                 (ts, t') \<Rightarrow>
                   if h \<in> set (map fst articles_data) then (articles_data, t')
                   else (articles_data @ [(h, ts)], t'))
            else (articles_data, t))"

definition extract_article_urls_with_timestamps ::
    "env \<Rightarrow> nat \<Rightarrow> lk_container list \<Rightarrow> lk_item list \<times> nat" where
  "extract_article_urls_with_timestamps E t containers = foldl (extract_step E) ([], t) containers"

text \<open>
  \<^verbatim>\<open>scrape_article(url, pre_extracted_timestamp)\<close>. Only a
  \<^verbatim>\<open>RequestException\<close> is caught; the exception of \<^verbatim>\<open>encode_url\<close> leaves the
  function.
\<close>

definition scrape_article ::
    "env \<Rightarrow> lk_site \<Rightarrow> nat \<Rightarrow> pystr \<Rightarrow> pystr option \<Rightarrow> (error + NewsArticle option) \<times> nat" where
  "scrape_article E site t url_arg pre_extracted_timestamp =
     (case article_page site url_arg of
        None \<Rightarrow> (Inr None, t)
      | Some pg \<Rightarrow>
          (case (if truthy pre_extracted_timestamp
                 then (case pre_extracted_timestamp of Some s \<Rightarrow> s | None \<Rightarrow> [], t)
                 else case now_iso (clock E) t of
                        (dflt, t1) \<Rightarrow>
                          (case pg_date_part pg of
                             None \<Rightarrow> (dflt, t1)
                           | Some date_part \<Rightarrow> parse_sinhala_date E t1 date_part)) of
             (ts, t') \<Rightarrow>
               (case encode_url E url_arg of
                  Inl e \<Rightarrow> (Inl e, t')
                | Inr i \<Rightarrow>
                    (Inr (Some \<lparr>id_str = i, source = asc ''Lankadeepa'',
                                headline = pg_headline pg, content = pg_content pg,
                                timestamp = ts, url = url_arg\<rparr>), t'))))"

text \<open>\<^verbatim>\<open>save_article(article, category)\<close> of Lankadeepa; the document is \<^verbatim>\<open>asdict(article)\<close>.\<close>

definition lk_save_article :: "env \<Rightarrow> world \<Rightarrow> NewsArticle \<Rightarrow> (error + pystr) \<times> world" where
  "lk_save_article E w article =
     (let (timestamp_str, t') =
            (case fromisoformat E
                    (py_replace (asc ''Z'') [] (py_replace (asc ''T'') (asc '' '') (timestamp article))) of
               Some pub_date \<Rightarrow> (strftime_file pub_date, ticks w)
             | None \<Rightarrow> (strftime_file (clock E (ticks w)), Suc (ticks w)));
          filename = timestamp_str @ asc ''_'' @ id_str article @ asc ''.json'';
          doc = [(asc ''id'', id_str article), (asc ''source'', source article),
                 (asc ''headline'', headline article), (asc ''content'', content article),
                 (asc ''timestamp'', timestamp article), (asc ''url'', url article)]
      in case write_json E (files w) filename (JsonStrObj doc) of
           (Some e, d) \<Rightarrow> (Inl e, w\<lparr>files := d, ticks := t'\<rparr>)
         | (None, d) \<Rightarrow> (Inr filename,
                        w\<lparr>files := d, ticks := t',
                          trace := trace w @ [Wrote filename (id_str article)]\<rparr>))"

text \<open>
  Step 1 of \<^verbatim>\<open>scrape_category\<close>: every page of \<^verbatim>\<open>range(num_pages)\<close> is fetched,
  at offset \<open>30 * page\<close>, and its items appended to \<^verbatim>\<open>all_articles_data\<close>.
\<close>

fun lk_collect ::
    "env \<Rightarrow> lk_site \<Rightarrow> pystr \<Rightarrow> nat \<Rightarrow> nat \<Rightarrow> lk_item list \<times> world \<Rightarrow> lk_item list \<times> world" where
  "lk_collect E site category page 0 acc = acc"
| "lk_collect E site category page (Suc n) acc =
     (case acc of (all_articles_data, w) \<Rightarrow>
        let page_offset = page * 30;
            w1 = w\<lparr>trace := trace w @ [Requested page_offset]\<rparr>
        in case listing site category page_offset of
             None \<Rightarrow> lk_collect E site category (Suc page) n (all_articles_data, w1)
           | Some containers \<Rightarrow>
               (case extract_article_urls_with_timestamps E (ticks w1) containers of
                  (articles_data, t') \<Rightarrow>
                    lk_collect E site category (Suc page) n
                      (all_articles_data @ articles_data, w1\<lparr>ticks := t'\<rparr>)))"

text \<open>The removal of duplicate URLs, the first occurrence kept.\<close>

fun unique_by_url :: "pystr list \<Rightarrow> lk_item list \<Rightarrow> lk_item list" where
  "unique_by_url seen_urls [] = []"
| "unique_by_url seen_urls (a # as) =
     (if fst a \<in> set seen_urls then unique_by_url seen_urls as
      else a # unique_by_url (fst a # seen_urls) as)"

text \<open>
  Step 3: the loop over the unique items. An exception of \<^verbatim>\<open>encode_url\<close>,
  \<^verbatim>\<open>scrape_article\<close> or \<^verbatim>\<open>save_article\<close> is not caught here and ends the loop.
\<close>

record lk_state =
  lw :: world
  lk_existing_ids :: "pystr list"
  new_articles :: nat
  skipped_articles :: nat

definition lk_article_step :: "env \<Rightarrow> lk_site \<Rightarrow> lk_state \<Rightarrow> lk_item \<Rightarrow> error option \<times> lk_state" where
  "lk_article_step E site st article_data =
     (case article_data of (url_a, ts) \<Rightarrow>
        case encode_url E url_a of
          Inl e \<Rightarrow> (Some e, st)
        | Inr url_id \<Rightarrow>
            if url_id \<in> set (lk_existing_ids st)
            then (None, st\<lparr>lw := (lw st)\<lparr>trace := trace (lw st) @ [Skipped url_id]\<rparr>,
                           skipped_articles := skipped_articles st + 1\<rparr>)
            else
              let w1 = (lw st)\<lparr>trace := trace (lw st) @ [Fetched url_a]\<rparr> in
              (case scrape_article E site (ticks w1) url_a ts of
                 (Inl e, t') \<Rightarrow> (Some e, st\<lparr>lw := w1\<lparr>ticks := t'\<rparr>\<rparr>)
               | (Inr None, t') \<Rightarrow> (None, st\<lparr>lw := w1\<lparr>ticks := t'\<rparr>\<rparr>)
               | (Inr (Some article), t') \<Rightarrow>
                   if headline article \<noteq> [] \<and> content article \<noteq> [] then
                     (case lk_save_article E (w1\<lparr>ticks := t'\<rparr>) article of
                        (Inl e, w') \<Rightarrow> (Some e, st\<lparr>lw := w'\<rparr>)
                      | (Inr filename, w') \<Rightarrow>
                          (None, st\<lparr>lw := w'\<lparr>trace := trace w' @ [Marked (id_str article)]\<rparr>,
                                     lk_existing_ids := set_add (id_str article) (lk_existing_ids st),
                                     new_articles := new_articles st + 1\<rparr>))
                   else (None, st\<lparr>lw := w1\<lparr>ticks := t'\<rparr>\<rparr>)))"

fun lk_article_loop :: "env \<Rightarrow> lk_site \<Rightarrow> lk_state \<Rightarrow> lk_item list \<Rightarrow> error option \<times> lk_state" where
  "lk_article_loop E site st [] = (None, st)"
| "lk_article_loop E site st (a # as) =
     (case lk_article_step E site st a of
        (Some e, st') \<Rightarrow> (Some e, st')
      | (None, st') \<Rightarrow> lk_article_loop E site st' as)"

text \<open>
  \<^verbatim>\<open>scrape_category(category, num_pages)\<close>: the two counts it prints at the end, or
  the exception that left it. The list of URLs written to
  \<^verbatim>\<open>step-01-output.json\<close> lies in the working directory, outside the partition; of
  that write only its failure is kept.
\<close>

definition lk_scrape_category ::
    "env \<Rightarrow> lk_site \<Rightarrow> world \<Rightarrow> pystr \<Rightarrow> nat \<Rightarrow> (error + nat \<times> nat) \<times> world" where
  "lk_scrape_category E site w category num_pages =
     (case lk_collect E site category 0 num_pages ([], w) of
        (all_articles_data, w1) \<Rightarrow>
          let unique_articles_data = unique_by_url [] all_articles_data in
          if writable E (asc ''step-01-output.json'') then
            (case lk_load_existing_ids (files w1) of
               Inl e \<Rightarrow> (Inl e, w1)
             | Inr ids \<Rightarrow>
                 (case lk_article_loop E site
                         \<lparr>lw = w1, lk_existing_ids = ids, new_articles = 0, skipped_articles = 0\<rparr>
                         unique_articles_data of
                    (Some e, st) \<Rightarrow> (Inl e, lw st)
                  | (None, st) \<Rightarrow>
                      (case save_existing_ids E (files (lw st)) (lk_existing_ids st) of
                         (Some e, d) \<Rightarrow> (Inl e, (lw st)\<lparr>files := d\<rparr>)
                       | (None, d) \<Rightarrow>
                           (Inr (new_articles st, skipped_articles st),
                            (lw st)\<lparr>files := d,
                                    trace := trace (lw st) @ [Flushed (lk_existing_ids st)]\<rparr>))))
          else (Inl OSError, w1))"

section \<open>news_first\<close>

text \<open>
  \<^verbatim>\<open>s.split(sep)\<close> for a separator of one character: the pieces between the
  occurrences of the separator, empty ones included.
\<close>

fun split_on_acc :: "nat \<Rightarrow> pystr \<Rightarrow> pystr \<Rightarrow> pystr list" where
  "split_on_acc c w [] = [w]"
| "split_on_acc c w (x # xs) =
     (if x = c then w # split_on_acc c [] xs else split_on_acc c (w @ [x]) xs)"

definition split_on :: "nat \<Rightarrow> pystr \<Rightarrow> pystr list" where
  "split_on c s = split_on_acc c [] s"

text \<open>
  \<^verbatim>\<open>format_timestamp(date_string)\<close> of news_first, for a date like
  \<^verbatim>\<open>03-06-2025T8:11 AM\<close>. The unpacking of \<^verbatim>\<open>date_part.split('-')\<close> into three
  names raises unless there are exactly three pieces, and \<^verbatim>\<open>except Exception\<close>
  then returns the text as it came.
\<close>

definition nf_format_timestamp :: "pystr \<Rightarrow> pystr" where
  "nf_format_timestamp date_string =
     (let pieces = split_on 84 date_string;
          date_part = (case pieces of [] \<Rightarrow> [] | p # ps \<Rightarrow> p);
          time_part = (if 84 \<in> set date_string
                       then (case pieces of p # q # qs \<Rightarrow> q | _ \<Rightarrow> []) else [])
      in case split_on 45 date_part of
           [day_p, month_p, year_p] \<Rightarrow>
             (let formatted_date = year_p @ asc ''-'' @ month_p @ asc ''-'' @ day_p in
              if time_part \<noteq> [] then
                (let time_clean = py_replace (asc '' PM'') [] (py_replace (asc '' AM'') [] time_part)
                 in if 58 \<in> set time_clean then formatted_date @ asc '' '' @ time_clean
                    else formatted_date)
              else formatted_date)
         | _ \<Rightarrow> date_string)"

text \<open>
  One entry of \<^verbatim>\<open>postResponseDto\<close>: the content and the headline that
  \<^verbatim>\<open>convert_to_news_articles\<close> computes from it by \<^verbatim>\<open>clean_html_content\<close>, its
  \<^verbatim>\<open>date\<close> (empty where it has none) and its \<^verbatim>\<open>post_url\<close> where present.
\<close>

record nf_post =
  post_content :: pystr
  post_headline :: pystr
  post_date :: pystr
  post_url :: "pystr option"

definition convert_post :: "env \<Rightarrow> nf_post \<Rightarrow> error + NewsArticle" where
  "convert_post E post =
     (let article_url = asc ''https://sinhala.newsfirst.lk/'' @
                          (case post_url post of Some u \<Rightarrow> u | None \<Rightarrow> [])
      in case get_md5_hash E article_url of
           Inl e \<Rightarrow> Inl e
         | Inr article_id \<Rightarrow>
             Inr \<lparr>id_str = article_id, source = asc ''News First'',
                  headline = post_headline post, content = post_content post,
                  timestamp = nf_format_timestamp (post_date post), url = article_url\<rparr>)"

fun convert_to_news_articles :: "env \<Rightarrow> nf_post list \<Rightarrow> error + NewsArticle list" where
  "convert_to_news_articles E [] = Inr []"
| "convert_to_news_articles E (post # posts) =
     (case convert_post E post of
        Inl e \<Rightarrow> Inl e
      | Inr article \<Rightarrow>
          (case convert_to_news_articles E posts of
             Inl e \<Rightarrow> Inl e
           | Inr articles \<Rightarrow> Inr (article # articles)))"

text \<open>
  \<^verbatim>\<open>create_timestamp_filename(timestamp, article_id)\<close>: whatever the parsing raises
  is caught and the current time is taken.
\<close>

definition create_timestamp_filename :: "env \<Rightarrow> nat \<Rightarrow> pystr \<Rightarrow> pystr \<Rightarrow> pystr \<times> nat" where
  "create_timestamp_filename E t ts article_id =
     (let (dt, t') =
            (case (if 84 \<in> set ts
                   then fromisoformat E (py_replace (asc ''Z'') (asc ''+00:00'') ts)
                   else strptime E ts (asc ''%Y-%m-%d %H:%M'')) of
               Some d \<Rightarrow> (d, t)
             | None \<Rightarrow> (clock E t, Suc t))
      in (if article_id \<noteq> [] then strftime_file dt @ asc ''_'' @ article_id @ asc ''.json''
          else strftime_file dt @ asc ''.json'', t'))"

definition save_article_to_file :: "env \<Rightarrow> world \<Rightarrow> NewsArticle \<Rightarrow> (error + pystr) \<times> world" where
  "save_article_to_file E w article =
     (case create_timestamp_filename E (ticks w) (timestamp article) (id_str article) of
        (filename, t') \<Rightarrow>
          let article_data = [(asc ''id'', id_str article), (asc ''source'', source article),
                              (asc ''headline'', headline article), (asc ''content'', content article),
                              (asc ''timestamp'', timestamp article), (asc ''url'', url article)]
          in case write_json E (files w) filename (JsonStrObj article_data) of
               (Some e, d) \<Rightarrow> (Inl e, w\<lparr>files := d, ticks := t'\<rparr>)
             | (None, d) \<Rightarrow> (Inr filename,
                            w\<lparr>files := d, ticks := t',
                              trace := trace w @ [Wrote filename (id_str article)]\<rparr>))"

text \<open>
  \<^verbatim>\<open>save_articles_by_category(articles, category_id)\<close>: its loop has no
  \<^verbatim>\<open>try\<close>, so an exception of \<^verbatim>\<open>save_article_to_file\<close> ends it. The result is
  the list \<^verbatim>\<open>saved_files\<close>.
\<close>

record nf_state =
  nw :: world
  nf_existing_ids :: "pystr list"
  nf_new_ids :: "pystr list"
  saved_files :: "pystr list"

definition nf_article_step :: "env \<Rightarrow> nf_state \<Rightarrow> NewsArticle \<Rightarrow> error option \<times> nf_state" where
  "nf_article_step E st article =
     (if id_str article \<in> set (nf_existing_ids st)
      then (None, st\<lparr>nw := (nw st)\<lparr>trace := trace (nw st) @ [Skipped (id_str article)]\<rparr>\<rparr>)
      else
        (case save_article_to_file E (nw st) article of
           (Inl e, w') \<Rightarrow> (Some e, st\<lparr>nw := w'\<rparr>)
         | (Inr file_path, w') \<Rightarrow>
             (None, st\<lparr>nw := w'\<lparr>trace := trace w' @ [Marked (id_str article)]\<rparr>,
                        saved_files := saved_files st @ [file_path],
                        nf_new_ids := set_add (id_str article) (nf_new_ids st),
                        nf_existing_ids := set_add (id_str article) (nf_existing_ids st)\<rparr>)))"

fun nf_article_loop :: "env \<Rightarrow> nf_state \<Rightarrow> NewsArticle list \<Rightarrow> error option \<times> nf_state" where
  "nf_article_loop E st [] = (None, st)"
| "nf_article_loop E st (a # as) =
     (case nf_article_step E st a of
        (Some e, st') \<Rightarrow> (Some e, st')
      | (None, st') \<Rightarrow> nf_article_loop E st' as)"

definition save_articles_by_category ::
    "env \<Rightarrow> world \<Rightarrow> NewsArticle list \<Rightarrow> (error + pystr list) \<times> world" where
  "save_articles_by_category E w articles =
     (case load_existing_ids (files w) of
        Inl e \<Rightarrow> (Inl e, w)
      | Inr ids \<Rightarrow>
          (case nf_article_loop E
                  \<lparr>nw = w, nf_existing_ids = ids, nf_new_ids = [], saved_files = []\<rparr> articles of
             (Some e, st) \<Rightarrow> (Inl e, nw st)
           | (None, st) \<Rightarrow>
               if nf_new_ids st \<noteq> []
               then (case save_existing_ids E (files (nw st)) (nf_existing_ids st) of
                       (Some e, d) \<Rightarrow> (Inl e, (nw st)\<lparr>files := d\<rparr>)
                     | (None, d) \<Rightarrow>
                         (Inr (saved_files st),
                          (nw st)\<lparr>files := d,
                                  trace := trace (nw st) @ [Flushed (nf_existing_ids st)]\<rparr>))
               else (Inr (saved_files st), nw st)))"

section \<open>ITN\<close>

text \<open>
  The entries of \<^verbatim>\<open>article_info\<close> that \<^verbatim>\<open>scrape_individual_article\<close> reads, and
  what it extracts from the fetched page: the title, the text of the first content area
  that yields any, and the text of the \<^verbatim>\<open>time\<close> element, each empty where the
  page has none. \<open>None\<close> for the page stands for any exception of the fetch.
\<close>

record itn_info =
  info_url :: pystr
  info_headline :: pystr
  info_date :: pystr

record itn_page =
  itn_title :: pystr
  itn_text :: pystr
  itn_time :: pystr

record itn_article =
  itn_source :: pystr
  itn_headline :: pystr
  itn_content :: pystr
  itn_timestamp :: pystr
  itn_url :: pystr

definition strftime_std :: "datetime \<Rightarrow> pystr" where
  "strftime_std dt =
     fmt_d 4 (year dt) @ asc ''-'' @ fmt_d 2 (month dt) @ asc ''-'' @ fmt_d 2 (day dt) @ asc '' '' @
     fmt_d 2 (hour dt) @ asc '':'' @ fmt_d 2 (minute dt) @ asc '':'' @ fmt_d 2 (second dt)"

definition format_timestamp :: "env \<Rightarrow> pystr \<Rightarrow> pystr" where
  "format_timestamp E timestamp_str =
     (if timestamp_str = [] then []
      else if 84 \<in> set timestamp_str \<and> 43 \<in> set timestamp_str then
        (case fromisoformat E (py_replace (asc ''+05:30'') [] timestamp_str) of
           Some dt \<Rightarrow> strftime_std dt
         | None \<Rightarrow> timestamp_str)
      else timestamp_str)"

definition scrape_individual_article ::
    "env \<Rightarrow> (pystr \<Rightarrow> itn_page option) \<Rightarrow> pystr \<Rightarrow> itn_info \<Rightarrow> itn_article option" where
  "scrape_individual_article E fetch article_url article_info =
     (case fetch article_url of
        None \<Rightarrow> None
      | Some pg \<Rightarrow>
          let headline_v = (if info_headline article_info \<noteq> [] then info_headline article_info
                            else itn_title pg);
              content_v = itn_text pg;
              ts0 = (if info_date article_info \<noteq> [] then info_date article_info else itn_time pg);
              ts = (if ts0 \<noteq> [] then format_timestamp E ts0 else ts0)
          in if headline_v = [] \<or> content_v = [] then None
             else Some \<lparr>itn_source = asc ''ITN News'', itn_headline = headline_v,
                        itn_content = content_v, itn_timestamp = ts, itn_url = article_url\<rparr>)"

text \<open>
  The inner loop of ITN's \<^verbatim>\<open>scrape_category\<close>: an article is appended to
  \<^verbatim>\<open>all_articles\<close> only where \<^verbatim>\<open>scrape_individual_article\<close> returned one.
\<close>

definition itn_collect ::
    "env \<Rightarrow> (pystr \<Rightarrow> itn_page option) \<Rightarrow> itn_article list \<Rightarrow> itn_info \<Rightarrow> itn_article list" where
  "itn_collect E fetch all_articles article_info =
     (case scrape_individual_article E fetch (info_url article_info) article_info of
        None \<Rightarrow> all_articles
      | Some article \<Rightarrow> all_articles @ [article])"

section \<open>An environment for the examples\<close>

text \<open>
  The examples below run in one concrete environment. Its date parsers are not the
  library's: they accept only valid dates in the zero-padded forms
  \<^verbatim>\<open>YYYY-MM-DD HH:MM:SS\<close>, \<^verbatim>\<open>YYYY-MM-DDTHH:MM:SS\<close> and, for the format of
  news_first, \<^verbatim>\<open>YYYY-MM-DD HH:MM\<close>, on which they return what the library returns;
  the library accepts further forms (fields of one digit, fractions of a second,
  offsets), and the examples use no date text on which the two differ. The clock
  starts at 08:45:42 on 26 June 2025 and reads one second later each time, the date
  staying the same; every file name can be opened and stored;
  and in place of MD5 the digest of a byte string is the byte string itself, so that
  different keys have different digests.
\<close>

definition valid_only :: "datetime option \<Rightarrow> datetime option" where
  "valid_only x = (case x of None \<Rightarrow> None | Some dt \<Rightarrow> if valid_datetime dt then Some dt else None)"

definition example_strptime :: "pystr \<Rightarrow> pystr \<Rightarrow> datetime option" where
  "example_strptime s fmt =
     (if fmt = asc ''%Y-%m-%d %H:%M:%S'' then valid_only (parse_ymdhms 32 s)
      else if fmt = asc ''%Y-%m-%d %H:%M'' \<and> length s = 16 then valid_only (parse_ymdhms 32 (s @ asc '':00''))
      else None)"

definition example_fromisoformat :: "pystr \<Rightarrow> datetime option" where
  "example_fromisoformat s =
     (case valid_only (parse_ymdhms 84 s) of Some d \<Rightarrow> Some d | None \<Rightarrow> valid_only (parse_ymdhms 32 s))"

definition example_clock :: clock where
  "example_clock n =
     (let s = 31542 + n
      in \<lparr>year = 2025, month = 6, day = 26, hour = (s div 3600) mod 24, minute = (s div 60) mod 60,
          second = s mod 60, microsecond = 0\<rparr>)"

definition example_env :: env where
  "example_env =
     \<lparr>md5 = (\<lambda>bs. bs),
      strptime = example_strptime,
      fromisoformat = example_fromisoformat,
      clock = example_clock,
      writable = (\<lambda>name. True),
      storable = (\<lambda>name. True)\<rparr>"

text \<open>
  Listing entries of hirunews for the examples: two dated articles, one whose date
  text is missing, one whose story is empty; and two listings built from them.
\<close>

definition example_item :: article_data where
  "example_item =
     [(asc ''seourltitle'', asc ''sports/1''), (asc ''sinhala_added_date'', asc ''2025-06-26 08:45:42''),
      (asc ''sinhala_title'', asc ''Final''), (asc ''sinhala_story'', asc ''Story'')]"

definition example_item2 :: article_data where
  "example_item2 =
     [(asc ''seourltitle'', asc ''sports/2''), (asc ''sinhala_added_date'', asc ''2025-06-25 10:00:00''),
      (asc ''sinhala_title'', asc ''Semi''), (asc ''sinhala_story'', asc ''Story'')]"

definition example_item_undated :: article_data where
  "example_item_undated =
     [(asc ''seourltitle'', asc ''sports/1''),
      (asc ''sinhala_title'', asc ''Final''), (asc ''sinhala_story'', asc ''Story'')]"

definition example_item_empty :: article_data where
  "example_item_empty =
     [(asc ''seourltitle'', asc ''sports/4''), (asc ''sinhala_added_date'', asc ''2025-06-26 08:45:42''),
      (asc ''sinhala_title'', asc ''Final''), (asc ''sinhala_story'', [])]"

definition example_api :: hiru_api where
  "example_api category page =
     (if page = 1 then [example_item] else if page = 2 then [example_item2] else [])"

definition single_page_api :: "article_data \<Rightarrow> hiru_api" where
  "single_page_api item category page = (if page = 1 then [item] else [])"

definition empty_world :: world where
  "empty_world = \<lparr>files = Map.empty, ticks = 0, trace = []\<rparr>"

text \<open>
  A Lankadeepa site for the examples: one article on each of two listing pages, the
  second with an article page without content.
\<close>

definition example_url1 :: pystr where
  "example_url1 = asc ''https://www.lankadeepa.lk/news/a/101-1''"

definition example_url2 :: pystr where
  "example_url2 = asc ''https://www.lankadeepa.lk/news/b/101-2''"

definition example_site :: lk_site where
  "example_site =
     \<lparr>listing = (\<lambda>category page_offset.
         if page_offset = 0 then Some [\<lparr>href = Some example_url1, timec = None\<rparr>]
         else if page_offset = 30 then Some [\<lparr>href = Some example_url2, timec = None\<rparr>]
         else None),
      article_page = (\<lambda>u.
         if u = example_url1
         then Some \<lparr>pg_headline = asc ''Final'', pg_date_part = None, pg_content = asc ''Story''\<rparr>
         else if u = example_url2
         then Some \<lparr>pg_headline = asc ''Semi'', pg_date_part = None, pg_content = []\<rparr>
         else None)\<rparr>"

text \<open>
  A partition of Lankadeepa whose Seen-Set holds the id of the first article of the
  example site.
\<close>

definition example_seen_world :: world where
  "example_seen_world =
     \<lparr>files = Map.empty(seen_file \<mapsto> JsonStrList [hexdigest example_url1]), ticks = 0, trace = []\<rparr>"

definition example_post :: nf_post where
  "example_post =
     \<lparr>post_content = asc ''Story'', post_headline = asc ''Final'',
      post_date = asc ''03-06-2025T08:11 AM'', post_url = Some (asc ''2025/06/03/final'')\<rparr>"

section \<open>Reading a list of actions\<close>

text \<open>The listing pages requested, the ids reported as existing, added and written, in order.\<close>

fun requested_pages :: "event list \<Rightarrow> nat list" where
  "requested_pages [] = []"
| "requested_pages (Requested p # es) = p # requested_pages es"
| "requested_pages (e # es) = requested_pages es"

fun skipped_ids :: "event list \<Rightarrow> pystr list" where
  "skipped_ids [] = []"
| "skipped_ids (Skipped i # es) = i # skipped_ids es"
| "skipped_ids (e # es) = skipped_ids es"

fun marked_ids :: "event list \<Rightarrow> pystr list" where
  "marked_ids [] = []"
| "marked_ids (Marked i # es) = i # marked_ids es"
| "marked_ids (e # es) = marked_ids es"

fun written_ids :: "event list \<Rightarrow> pystr list" where
  "written_ids [] = []"
| "written_ids (Wrote f i # es) = i # written_ids es"
| "written_ids (e # es) = written_ids es"

text \<open>
  Every addition of an id to the Seen-Set comes directly after the writing of an article
  record with that id.
\<close>

fun marks_follow_writes :: "event list \<Rightarrow> bool" where
  "marks_follow_writes [] = True"
| "marks_follow_writes (Wrote f i # Marked j # es) = (i = j \<and> marks_follow_writes es)"
| "marks_follow_writes (Marked j # es) = False"
| "marks_follow_writes (e # es) = marks_follow_writes es"

text \<open>
  No listing page is requested after a page during which no article record was written.
  The flag says that no page is under way or that the page under way has had a record
  written.
\<close>

fun halts_when_idle :: "bool \<Rightarrow> event list \<Rightarrow> bool" where
  "halts_when_idle progress [] = True"
| "halts_when_idle progress (Requested p # es) = (progress \<and> halts_when_idle False es)"
| "halts_when_idle progress (Wrote f i # es) = halts_when_idle True es"
| "halts_when_idle progress (e # es) = halts_when_idle progress es"



text \<open>
  Every Seen-Set written to its file holds only ids that were in the Seen-Set when the
  run loaded it (\<open>known\<close>) or have been added to it since.
\<close>

fun flushes_follow_marks :: "pystr list \<Rightarrow> event list \<Rightarrow> bool" where
  "flushes_follow_marks known [] = True"
| "flushes_follow_marks known (Marked i # es) = flushes_follow_marks (i # known) es"
| "flushes_follow_marks known (Flushed ids # es) =
     (list_all (\<lambda>i. i \<in> set known) ids \<and> flushes_follow_marks known es)"
| "flushes_follow_marks known (e # es) = flushes_follow_marks known es"

fun flushed :: "event list \<Rightarrow> pystr list list" where
  "flushed [] = []"
| "flushed (Flushed ids # es) = ids # flushed es"
| "flushed (e # es) = flushed es"

text \<open>That a directory holds, under the given name, a document with the given id.\<close>

definition record_present :: "directory \<Rightarrow> pystr \<times> pystr \<Rightarrow> bool" where
  "record_present d fi =
     (case fi of (f, i) \<Rightarrow>
        case d f of Some (JsonStrObj doc) \<Rightarrow> map_of doc (asc ''id'') = Some i | _ \<Rightarrow> False)"

text \<open>
  What a stretch of a run, from one state and in-memory Seen-Set to a later one, has
  done when it is made of the steps of the loops over the articles: the actions \<open>evs\<close>
  were added; every id added follows the writing of its record, and every record written
  was followed by the addition; the Seen-Set grew by the ids added; and the Seen-Set was
  not written to its file.
\<close>

definition crawl_steps :: "world \<Rightarrow> pystr list \<Rightarrow> event list \<Rightarrow> world \<Rightarrow> pystr list \<Rightarrow> bool" where
  "crawl_steps w ids evs w' ids' \<longleftrightarrow>
     trace w' = trace w @ evs \<and>
     marks_follow_writes evs \<and>
     written_ids evs = marked_ids evs \<and>
     set ids' = set ids \<union> set (marked_ids evs) \<and>
     flushed evs = []"



definition example_article :: NewsArticle where
  "example_article =
     \<lparr>id_str = asc ''73706f7274732f31'', source = asc ''hirunews'', headline = asc ''Final'',
      content = asc ''Story'', timestamp = asc ''2025-06-26T08:45:42'',
      url = asc ''https://hirunews.lk/sports/1''\<rparr>"


section \<open>Properties of the code\<close>

subsection \<open>The month default of \<^verbatim>\<open>parse_sinhala_date\<close>\<close>

lemma dec_digits: "dec n s \<noteq> None \<longleftrightarrow> list_all is_digit s"
  by (induction s arbitrary: n) auto

lemma length_zfill_ge: "width \<le> length (zfill s width)"
  by (auto simp: zfill_def split: list.splits)

lemma parse_built:
  "parse_ymdhms 84 ([a, b, c, e] @ asc ''-01-'' @ [p, q] @ asc ''T00:00:00'') =
     (case (dec 0 [a, b, c, e], dec 0 [p, q]) of
        (Some y, Some d) \<Rightarrow> Some \<lparr>year = y, month = 1, day = d, hour = 0, minute = 0, second = 0,
                                 microsecond = 0\<rparr>
      | _ \<Rightarrow> None)"
  by (simp add: parse_ymdhms_def asc_def is_digit_def split: option.splits)

lemma dec4_bound: "dec 0 [a, b, c, e] = Some y \<Longrightarrow> y \<le> 9999"
  by (auto simp: is_digit_def split: if_splits)

lemma wellformed_built:
  "iso_wellformed ([a, b, c, e] @ asc ''-01-'' @ [p, q] @ asc ''T00:00:00'') \<longleftrightarrow>
     (case dec 0 [a, b, c, e] of None \<Rightarrow> False | Some y \<Rightarrow> 1 \<le> y) \<and>
     (case dec 0 [p, q] of None \<Rightarrow> False | Some d \<Rightarrow> 1 \<le> d \<and> d \<le> 31)"
proof (cases "dec 0 [a, b, c, e]")
  case None
  then show ?thesis by (simp only: iso_wellformed_def parse_built) simp
next
  case y: (Some y)
  show ?thesis
  proof (cases "dec 0 [p, q]")
    case None
    with y show ?thesis by (simp only: iso_wellformed_def parse_built) simp
  next
    case d: (Some d)
    from y have "y \<le> 9999" by (rule dec4_bound)
    with y d show ?thesis
      by (simp only: iso_wellformed_def parse_built)
         (auto simp: valid_datetime_def days_in_month_def)
  qed
qed

lemma zfill_cases:
  "zfill d 2 = (if 2 \<le> length d then d else
                 case d of [] \<Rightarrow> [48, 48] | c # cs \<Rightarrow> if c = 43 \<or> c = 45 then [c, 48] else [48, c])"
  by (cases d; cases "tl d") (auto simp: zfill_def numeral_2_eq_2)

lemma zfill_day:
  assumes "length (zfill d 2) = 2"
  shows "(case dec 0 (zfill d 2) of None \<Rightarrow> False | Some n \<Rightarrow> 1 \<le> n \<and> n \<le> 31) \<longleftrightarrow>
         (case dec 0 d of None \<Rightarrow> False
          | Some n \<Rightarrow> (length d = 1 \<or> length d = 2) \<and> 1 \<le> n \<and> n \<le> 31)"
proof (cases "2 \<le> length d")
  case True
  with assms show ?thesis by (auto simp: zfill_cases split: option.splits)
next
  case False
  then consider "d = []" | c where "d = [c]"
    by (cases d; cases "tl d") auto
  then show ?thesis
  proof cases
    case 1
    then show ?thesis by (simp add: zfill_cases is_digit_def)
  next
    case 2
    then show ?thesis by (auto simp: zfill_cases is_digit_def)
  qed
qed

lemma parse_ymdhms_some:
  "parse_ymdhms sep s \<noteq> None \<Longrightarrow> length s = 19 \<and> dec 0 (take 4 s) \<noteq> None"
  unfolding parse_ymdhms_def by (cases "dec 0 (take 4 s)") (simp_all split: if_splits)

lemma wellformed_length:
  assumes "iso_wellformed (y @ asc ''-01-'' @ z @ asc ''T00:00:00'')" "2 \<le> length z"
  shows "length y = 4 \<and> length z = 2"
proof -
  define s where "s = y @ asc ''-01-'' @ z @ asc ''T00:00:00''"
  have "parse_ymdhms 84 s \<noteq> None"
    using assms(1) unfolding s_def by (auto simp: iso_wellformed_def split: option.splits)
  then have l: "length s = 19" and d: "dec 0 (take 4 s) \<noteq> None"
    using parse_ymdhms_some by blast+
  from l have sum: "length y + length z = 6" by (simp add: s_def asc_def)
  have "\<not> length y < 4"
  proof
    assume lt: "length y < 4"
    from d have "list_all is_digit (take 4 s)" by (simp only: dec_digits)
    moreover have "length y < length (take 4 s)" using lt l by simp
    ultimately have "is_digit (take 4 s ! length y)" by (simp only: list_all_length)
    moreover have "take 4 s ! length y = 45" using lt by (simp add: s_def nth_append asc_def)
    ultimately show False by (simp add: is_digit_def)
  qed
  with sum assms(2) show ?thesis by simp
qed

text \<open>
  Claim C10, as amended. A date text of at least four whitespace-separated parts whose
  second part is none of the twelve month names is not a parse failure and does not read
  the clock: the result is the first part, \<^verbatim>\<open>-01-\<close>, the fourth part filled with
  zeros to two characters, and \<^verbatim>\<open>T00:00:00\<close>. That result is a well-formed ISO
  timestamp of the form \<^verbatim>\<open>YYYY-MM-DDTHH:MM:SS\<close> exactly when the first part is four
  ASCII digits that denote a year from 1 on and the fourth part is one or two ASCII digits
  that denote a day from 1 to 31.
\<close>

theorem parse_sinhala_date_unknown_month:
  assumes "parts = py_split (py_strip date_text)"
      and "4 \<le> length parts"
      and "parts ! 1 \<notin> set (map fst sinhala_months)"
  shows "parse_sinhala_date E t date_text =
           (parts ! 0 @ asc ''-01-'' @ zfill (parts ! 3) 2 @ asc ''T00:00:00'', t)
         \<and> (iso_wellformed (fst (parse_sinhala_date E t date_text)) \<longleftrightarrow>
              (case dec 0 (parts ! 0) of None \<Rightarrow> False | Some y \<Rightarrow> length (parts ! 0) = 4 \<and> 1 \<le> y) \<and>
              (case dec 0 (parts ! 3) of None \<Rightarrow> False
               | Some d \<Rightarrow> (length (parts ! 3) = 1 \<or> length (parts ! 3) = 2) \<and> 1 \<le> d \<and> d \<le> 31))"
proof -
  let ?y = "parts ! 0" and ?d = "parts ! 3"
  let ?s = "?y @ asc ''-01-'' @ zfill ?d 2 @ asc ''T00:00:00''"
  from assms(3) have none: "map_of sinhala_months (parts ! 1) = None"
    by (simp add: map_of_eq_None_iff)
  have res: "parse_sinhala_date E t date_text = (?s, t)"
    using assms(1,2) none by (simp add: parse_sinhala_date_def Let_def asc_def)
  have "iso_wellformed ?s \<longleftrightarrow>
          (case dec 0 ?y of None \<Rightarrow> False | Some y \<Rightarrow> length ?y = 4 \<and> 1 \<le> y) \<and>
          (case dec 0 ?d of None \<Rightarrow> False
           | Some d \<Rightarrow> (length ?d = 1 \<or> length ?d = 2) \<and> 1 \<le> d \<and> d \<le> 31)"
    (is "?L \<longleftrightarrow> ?Y \<and> ?D")
  proof (cases "length ?y = 4 \<and> length (zfill ?d 2) = 2")
    case True
    then obtain a b c e p q where y: "?y = [a, b, c, e]" and z: "zfill ?d 2 = [p, q]"
      by (auto simp: length_Suc_conv numeral_eq_Suc)
    have "?L \<longleftrightarrow> (case dec 0 ?y of None \<Rightarrow> False | Some y \<Rightarrow> 1 \<le> y) \<and>
                 (case dec 0 (zfill ?d 2) of None \<Rightarrow> False | Some d \<Rightarrow> 1 \<le> d \<and> d \<le> 31)"
      unfolding y z by (rule wellformed_built)
    also have "(case dec 0 (zfill ?d 2) of None \<Rightarrow> False | Some d \<Rightarrow> 1 \<le> d \<and> d \<le> 31) \<longleftrightarrow> ?D"
      using True by (intro zfill_day) simp
    also have "(case dec 0 ?y of None \<Rightarrow> False | Some y \<Rightarrow> 1 \<le> y) \<longleftrightarrow> ?Y"
      using True by (auto split: option.splits)
    finally show ?thesis .
  next
    case False
    have nl: "\<not> ?L" using wellformed_length[of ?y "zfill ?d 2"] length_zfill_ge[of 2 ?d] False by blast
    have "\<not> (?Y \<and> ?D)"
    proof
      assume yd: "?Y \<and> ?D"
      then have "length ?y = 4" "length ?d = 1 \<or> length ?d = 2" by (auto split: option.splits)
      moreover from this(2) have "length (zfill ?d 2) = 2"
        by (auto simp: zfill_cases length_Suc_conv split: list.splits)
      ultimately show False using False by simp
    qed
    with nl show ?thesis by simp
  qed
  with res show ?thesis by simp
qed

text \<open>The theorem at the date text \<^verbatim>\<open>2025 June 22 5\<close>.\<close>

theorem parse_sinhala_date_unknown_month_witness:
  "parse_sinhala_date example_env 0 (asc ''2025 June 22 5'') = (asc ''2025-01-05T00:00:00'', 0)
   \<and> iso_wellformed (fst (parse_sinhala_date example_env 0 (asc ''2025 June 22 5'')))"
proof -
  let ?parts = "[asc ''2025'', asc ''June'', asc ''22'', asc ''5'']"
  have p: "?parts = py_split (py_strip (asc ''2025 June 22 5''))"
    by (simp add: py_split_def py_strip_def asc_def py_isspace_def)
  have l: "4 \<le> length ?parts" by simp
  have m: "?parts ! 1 \<notin> set (map fst sinhala_months)"
    by (simp add: sinhala_months_def asc_def)
  have d: "(case dec 0 (?parts ! 0) of None \<Rightarrow> False | Some y \<Rightarrow> length (?parts ! 0) = 4 \<and> 1 \<le> y) \<and>
           (case dec 0 (?parts ! 3) of None \<Rightarrow> False
            | Some d \<Rightarrow> (length (?parts ! 3) = 1 \<or> length (?parts ! 3) = 2) \<and> 1 \<le> d \<and> d \<le> 31)"
    by (simp add: asc_def is_digit_def)
  have z: "?parts ! 0 @ asc ''-01-'' @ zfill (?parts ! 3) 2 @ asc ''T00:00:00'' = asc ''2025-01-05T00:00:00''"
    by (simp add: asc_def zfill_def)
  note th = parse_sinhala_date_unknown_month[OF p l m, of example_env 0]
  from th have a: "parse_sinhala_date example_env 0 (asc ''2025 June 22 5'') =
      (?parts ! 0 @ asc ''-01-'' @ zfill (?parts ! 3) 2 @ asc ''T00:00:00'', 0)" by (rule conjunct1)
  from th d have b: "iso_wellformed (fst (parse_sinhala_date example_env 0 (asc ''2025 June 22 5'')))"
    by blast
  from a have c: "parse_sinhala_date example_env 0 (asc ''2025 June 22 5'') =
      (asc ''2025-01-05T00:00:00'', 0)" by (simp only: z)
  from b c show ?thesis by simp
qed

text \<open>
  Claim C10 as stated fails: the date text \<^verbatim>\<open>Sunday, 22 June 2025\<close> has four parts
  and no Sinhala month name, and the result \<^verbatim>\<open>Sunday,-01-2025T00:00:00\<close> is not a
  well-formed ISO timestamp.
\<close>

theorem parse_sinhala_date_not_iso_counterexample:
  "length (py_split (py_strip (asc ''Sunday, 22 June 2025''))) = 4
   \<and> py_split (py_strip (asc ''Sunday, 22 June 2025'')) ! 1 \<notin> set (map fst sinhala_months)
   \<and> parse_sinhala_date example_env 0 (asc ''Sunday, 22 June 2025'') = (asc ''Sunday,-01-2025T00:00:00'', 0)
   \<and> \<not> iso_wellformed (asc ''Sunday,-01-2025T00:00:00'')"
  by (simp add: parse_sinhala_date_def py_split_def py_strip_def asc_def py_isspace_def zfill_def
        sinhala_months_def iso_wellformed_def parse_ymdhms_def)

subsection \<open>Numbers in decimal\<close>

lemma fmt_d_2 [simp]: "fmt_d 2 n = [48 + (n div 10) mod 10, 48 + n mod 10]"
  by (simp add: numeral_2_eq_2)

lemma fmt_d_4 [simp]:
  "fmt_d 4 n = [48 + (n div 1000) mod 10, 48 + (n div 100) mod 10, 48 + (n div 10) mod 10, 48 + n mod 10]"
proof -
  have "fmt_d (Suc (Suc (Suc (Suc 0)))) n =
        [48 + (n div 1000) mod 10, 48 + (n div 100) mod 10, 48 + (n div 10) mod 10, 48 + n mod 10]"
    by (simp add: div_mult2_eq[symmetric])
  moreover have "Suc (Suc (Suc (Suc 0))) = 4" by simp
  ultimately show ?thesis by (simp only:)
qed

subsection \<open>Lists of actions\<close>

lemma requested_pages_append [simp]:
  "requested_pages (xs @ ys) = requested_pages xs @ requested_pages ys"
  by (induction xs rule: requested_pages.induct) simp_all

lemma skipped_ids_append [simp]: "skipped_ids (xs @ ys) = skipped_ids xs @ skipped_ids ys"
  by (induction xs rule: skipped_ids.induct) simp_all

lemma marked_ids_append [simp]: "marked_ids (xs @ ys) = marked_ids xs @ marked_ids ys"
  by (induction xs rule: marked_ids.induct) simp_all

lemma written_ids_append [simp]: "written_ids (xs @ ys) = written_ids xs @ written_ids ys"
  by (induction xs rule: written_ids.induct) simp_all

lemma flushed_append [simp]: "flushed (xs @ ys) = flushed xs @ flushed ys"
  by (induction xs rule: flushed.induct) simp_all

lemma marks_follow_writes_Wrote:
  "marks_follow_writes ys \<Longrightarrow> marks_follow_writes (Wrote f i # ys)"
  by (cases ys rule: marks_follow_writes.cases) simp_all

lemma marks_follow_writes_append:
  "marks_follow_writes xs \<Longrightarrow> marks_follow_writes ys \<Longrightarrow> marks_follow_writes (xs @ ys)"
  by (induction xs rule: marks_follow_writes.induct) (simp_all add: marks_follow_writes_Wrote)

lemma halts_when_idle_append:
  "requested_pages xs = [] \<Longrightarrow>
   halts_when_idle f (xs @ ys) = halts_when_idle (f \<or> written_ids xs \<noteq> []) ys"
  by (induction f xs rule: halts_when_idle.induct) simp_all

lemma flushes_follow_marks_mono:
  "flushes_follow_marks known evs \<Longrightarrow> set known \<subseteq> set known' \<Longrightarrow> flushes_follow_marks known' evs"
proof (induction known evs arbitrary: known' rule: flushes_follow_marks.induct)
  case (2 known i es)
  then show ?case by (simp add: subset_iff)
next
  case (3 known ids es)
  then show ?case by (auto simp: list_all_iff)
qed simp_all

lemma flushes_follow_marks_append:
  "flushed xs = [] \<Longrightarrow>
   flushes_follow_marks known (xs @ ys) = flushes_follow_marks (rev (marked_ids xs) @ known) ys"
  by (induction known xs rule: flushes_follow_marks.induct) simp_all

lemma flushes_follow_marks_end:
  assumes "flushed evs = []" "set ids \<subseteq> set known \<union> set (marked_ids evs)"
  shows "flushes_follow_marks known (evs @ [Flushed ids])"
  using assms by (auto simp: flushes_follow_marks_append list_all_iff)

lemma flushes_follow_marks_none: "flushed evs = [] \<Longrightarrow> flushes_follow_marks known evs"
  using flushes_follow_marks_append[of evs known "[]"] by simp

subsection \<open>Stretches of a run\<close>

lemma crawl_steps_refl: "trace w' = trace w \<Longrightarrow> crawl_steps w ids [] w' ids"
  by (simp add: crawl_steps_def)

lemma crawl_steps_quiet:
  "trace w' = trace w @ evs \<Longrightarrow> marked_ids evs = [] \<Longrightarrow> written_ids evs = [] \<Longrightarrow> flushed evs = [] \<Longrightarrow>
   marks_follow_writes evs \<Longrightarrow> crawl_steps w ids evs w' ids"
  by (simp add: crawl_steps_def)

lemma crawl_steps_save:
  "trace w' = trace w @ evs @ [Wrote f i, Marked i] \<Longrightarrow> marked_ids evs = [] \<Longrightarrow> written_ids evs = [] \<Longrightarrow>
   flushed evs = [] \<Longrightarrow> marks_follow_writes evs \<Longrightarrow> set ids' = insert i (set ids) \<Longrightarrow>
   crawl_steps w ids (evs @ [Wrote f i, Marked i]) w' ids'"
  by (simp add: crawl_steps_def marks_follow_writes_append)

lemma crawl_steps_trans:
  "crawl_steps w ids e1 w1 ids1 \<Longrightarrow> crawl_steps w1 ids1 e2 w2 ids2 \<Longrightarrow>
   crawl_steps w ids (e1 @ e2) w2 ids2"
  by (auto simp: crawl_steps_def marks_follow_writes_append)

subsection \<open>hirunews: a page and the pages\<close>

lemma write_json_returned: "write_json E d name doc = (None, d') \<Longrightarrow> d' = d(name \<mapsto> doc)"
  by (auto simp: write_json_def open_w_def dump_json_def split: if_splits)

lemma save_article_trace:
  "save_article E w a c = (r, w') \<Longrightarrow>
   trace w' = trace w @ (case r of Inl e \<Rightarrow> [] | Inr f \<Rightarrow> [Wrote f (id_str a)])"
  by (auto simp: save_article_def Let_def split: prod.splits option.splits)

lemma hiru_step_crawl:
  "\<exists>evs. crawl_steps (hw st) (existing_ids st) evs (hw (hiru_article_step E c st a))
            (existing_ids (hiru_article_step E c st a)) \<and> requested_pages evs = [] \<and>
     set (new_ids (hiru_article_step E c st a)) = set (new_ids st) \<union> set (marked_ids evs) \<and>
     page_new_articles (hiru_article_step E c st a) = page_new_articles st + length (marked_ids evs) \<and>
     total_new_articles (hiru_article_step E c st a) = total_new_articles st + length (marked_ids evs)"
proof -
  obtain r t' where p: "parse_article E (ticks (hw st)) a c = (r, t')" by (meson surj_pair)
  show ?thesis
  proof (cases r)
    case (Inl e)
    with p show ?thesis
      by (intro exI[of _ "[]"]) (simp add: hiru_article_step_def crawl_steps_refl)
  next
    case (Inr article)
    show ?thesis
    proof (cases "id_str article \<in> set (existing_ids st)")
      case True
      with p Inr show ?thesis
        by (intro exI[of _ "[Skipped (id_str article)]"])
           (simp add: hiru_article_step_def crawl_steps_quiet)
    next
      case False
      obtain r2 w' where s: "save_article E ((hw st)\<lparr>ticks := t'\<rparr>) article c = (r2, w')"
        by (meson surj_pair)
      note tr = save_article_trace[OF s]
      show ?thesis
      proof (cases r2)
        case (Inl e)
        with p Inr False s tr show ?thesis
          by (intro exI[of _ "[]"]) (simp add: hiru_article_step_def crawl_steps_refl)
      next
        case f: (Inr f)
        have "crawl_steps (hw st) (existing_ids st) ([] @ [Wrote f (id_str article), Marked (id_str article)])
                (hw (hiru_article_step E c st a)) (existing_ids (hiru_article_step E c st a))"
          by (rule crawl_steps_save)
             (use p Inr False s tr f in \<open>auto simp: hiru_article_step_def set_add_def\<close>)
        with p Inr False s f show ?thesis
          by (intro exI[of _ "[Wrote f (id_str article), Marked (id_str article)]"])
             (auto simp: hiru_article_step_def set_add_def)
      qed
    qed
  qed
qed

lemma hiru_articles_crawl:
  "\<exists>evs. crawl_steps (hw st) (existing_ids st) evs (hw (foldl (hiru_article_step E c) st items))
            (existing_ids (foldl (hiru_article_step E c) st items)) \<and> requested_pages evs = [] \<and>
     set (new_ids (foldl (hiru_article_step E c) st items)) = set (new_ids st) \<union> set (marked_ids evs) \<and>
     page_new_articles (foldl (hiru_article_step E c) st items) = page_new_articles st + length (marked_ids evs) \<and>
     total_new_articles (foldl (hiru_article_step E c) st items) = total_new_articles st + length (marked_ids evs)"
proof (induction items arbitrary: st)
  case Nil
  show ?case by (intro exI[of _ "[]"]) (simp add: crawl_steps_refl)
next
  case (Cons a items)
  from hiru_step_crawl[of st E c a] obtain e1 where
    1: "crawl_steps (hw st) (existing_ids st) e1 (hw (hiru_article_step E c st a))
            (existing_ids (hiru_article_step E c st a))" "requested_pages e1 = []"
     "set (new_ids (hiru_article_step E c st a)) = set (new_ids st) \<union> set (marked_ids e1)"
     "page_new_articles (hiru_article_step E c st a) = page_new_articles st + length (marked_ids e1)"
     "total_new_articles (hiru_article_step E c st a) = total_new_articles st + length (marked_ids e1)"
    by blast
  from Cons.IH[of "hiru_article_step E c st a"] obtain e2 where
    2: "crawl_steps (hw (hiru_article_step E c st a)) (existing_ids (hiru_article_step E c st a)) e2
          (hw (foldl (hiru_article_step E c) (hiru_article_step E c st a) items))
          (existing_ids (foldl (hiru_article_step E c) (hiru_article_step E c st a) items))"
      "requested_pages e2 = []"
     "set (new_ids (foldl (hiru_article_step E c) (hiru_article_step E c st a) items)) =
        set (new_ids (hiru_article_step E c st a)) \<union> set (marked_ids e2)"
     "page_new_articles (foldl (hiru_article_step E c) (hiru_article_step E c st a) items) =
        page_new_articles (hiru_article_step E c st a) + length (marked_ids e2)"
     "total_new_articles (foldl (hiru_article_step E c) (hiru_article_step E c st a) items) =
        total_new_articles (hiru_article_step E c st a) + length (marked_ids e2)"
    by blast
  show ?case
    using crawl_steps_trans[OF 1(1) 2(1)] 1(2-) 2(2-)
    by (intro exI[of _ "e1 @ e2"]) auto
qed

lemma hiru_pages_crawl:
  "\<exists>evs k. crawl_steps (hw st) (existing_ids st) evs (hw (hiru_page_loop E api c p n st))
            (existing_ids (hiru_page_loop E api c p n st)) \<and>
     halts_when_idle True evs \<and> k \<le> n \<and> requested_pages evs = [p..<p + k] \<and>
     set (new_ids (hiru_page_loop E api c p n st)) = set (new_ids st) \<union> set (marked_ids evs) \<and>
     total_new_articles (hiru_page_loop E api c p n st) = total_new_articles st + length (marked_ids evs)"
proof (induction n arbitrary: p st)
  case 0
  show ?case by (intro exI[of _ "[]"] exI[of _ 0]) (simp add: crawl_steps_refl)
next
  case (Suc n)
  define st1 where "st1 = st\<lparr>hw := (hw st)\<lparr>trace := trace (hw st) @ [Requested p]\<rparr>\<rparr>"
  have c1: "crawl_steps (hw st) (existing_ids st) [Requested p] (hw st1) (existing_ids st1)"
    by (simp add: st1_def crawl_steps_quiet)
  show ?case
  proof (cases "api c p = []")
    case True
    then have "hiru_page_loop E api c p (Suc n) st = st1" by (simp add: st1_def)
    with c1 show ?thesis
      by (intro exI[of _ "[Requested p]"] exI[of _ 1]) (simp add: st1_def)
  next
    case False
    define st2 where "st2 = foldl (hiru_article_step E c) (st1\<lparr>page_new_articles := 0\<rparr>) (api c p)"
    from hiru_articles_crawl[of "st1\<lparr>page_new_articles := 0\<rparr>" E c "api c p"]
    obtain e2 where 2: "crawl_steps (hw st1) (existing_ids st1) e2 (hw st2) (existing_ids st2)"
      "requested_pages e2 = []" "set (new_ids st2) = set (new_ids st1) \<union> set (marked_ids e2)"
      "page_new_articles st2 = length (marked_ids e2)"
      "total_new_articles st2 = total_new_articles st1 + length (marked_ids e2)"
      by (auto simp: st2_def)
    note c2 = crawl_steps_trans[OF c1 2(1)]
    have w2: "written_ids e2 = marked_ids e2" using 2(1) by (simp add: crawl_steps_def)
    show ?thesis
    proof (cases "page_new_articles st2 = 0")
      case True
      with False have "hiru_page_loop E api c p (Suc n) st = st2"
        by (simp add: st1_def st2_def Let_def)
      with c2 2 True show ?thesis
        by (intro exI[of _ "[Requested p] @ e2"] exI[of _ 1])
           (simp add: st1_def halts_when_idle_append[where ys="[]", simplified])
    next
      case nz: False
      with False have r: "hiru_page_loop E api c p (Suc n) st = hiru_page_loop E api c (Suc p) n st2"
        by (simp add: st1_def st2_def Let_def)
      from Suc.IH[of st2 "Suc p"] obtain e3 k where
        3: "crawl_steps (hw st2) (existing_ids st2) e3 (hw (hiru_page_loop E api c (Suc p) n st2))
              (existing_ids (hiru_page_loop E api c (Suc p) n st2))"
          "halts_when_idle True e3" "k \<le> n" "requested_pages e3 = [Suc p..<Suc p + k]"
          "set (new_ids (hiru_page_loop E api c (Suc p) n st2)) = set (new_ids st2) \<union> set (marked_ids e3)"
          "total_new_articles (hiru_page_loop E api c (Suc p) n st2) =
             total_new_articles st2 + length (marked_ids e3)"
        by blast
      have h: "halts_when_idle True (([Requested p] @ e2) @ e3)"
        using 2(2,4) nz w2 3(2) by (simp add: halts_when_idle_append)
      have rq: "requested_pages (([Requested p] @ e2) @ e3) = [p..<p + Suc k]"
        using 2(2) 3(4) by (simp add: upt_conv_Cons)
      show ?thesis
        unfolding r
        using crawl_steps_trans[OF c2 3(1)] h rq 3(3,5,6) 2(3,5)
        by (intro exI[of _ "([Requested p] @ e2) @ e3"] exI[of _ "Suc k"]) (auto simp: st1_def)
    qed
  qed
qed


lemma marks_follow_writes_Flushed: "marks_follow_writes evs \<Longrightarrow> marks_follow_writes (evs @ [Flushed xs])"
  by (simp add: marks_follow_writes_append)

lemma halts_when_idle_Flushed: "halts_when_idle b evs \<Longrightarrow> halts_when_idle b (evs @ [Flushed xs])"
  by (induction b evs rule: halts_when_idle.induct) simp_all

lemma hiru_run:
  "\<exists>evs k. trace (snd (scrape_category E api w c n)) = trace w @ evs \<and>
     marks_follow_writes evs \<and>
     flushes_follow_marks (case load_existing_ids (files w) of Inl e \<Rightarrow> [] | Inr ids \<Rightarrow> ids) evs \<and>
     halts_when_idle True evs \<and> k \<le> n \<and> requested_pages evs = [1..<1 + k]"
proof (cases "load_existing_ids (files w)")
  case (Inl e)
  then show ?thesis by (intro exI[of _ "[]"] exI[of _ 0]) (simp add: scrape_category_def)
next
  case (Inr ids)
  define st0 where "st0 = \<lparr>hw = w, existing_ids = ids, new_ids = [],
                      page_new_articles = 0, total_new_articles = 0\<rparr>"
  define st where "st = hiru_page_loop E api c 1 n st0"
  from hiru_pages_crawl[of st0 E api c 1 n] obtain evs k where
    1: "crawl_steps w ids evs (hw st) (existing_ids st)" "halts_when_idle True evs" "k \<le> n"
       "requested_pages evs = [1..<1 + k]"
    by (auto simp: st_def st0_def)
  then have t: "trace (hw st) = trace w @ evs" and m: "marks_follow_writes evs"
    and i: "set (existing_ids st) = set ids \<union> set (marked_ids evs)" and f: "flushed evs = []"
    by (simp_all add: crawl_steps_def)
  obtain r d where sv: "save_existing_ids E (files (hw st)) (existing_ids st) = (r, d)"
    by (meson surj_pair)
  have run: "scrape_category E api w c n =
      (if new_ids st \<noteq> []
       then (case r of Some e \<Rightarrow> (Inl e, (hw st)\<lparr>files := d\<rparr>)
             | None \<Rightarrow> (Inr (total_new_articles st),
                        (hw st)\<lparr>files := d, trace := trace (hw st) @ [Flushed (existing_ids st)]\<rparr>))
       else (Inr (total_new_articles st), hw st))"
  proof -
    have "scrape_category E api w c n =
      (if new_ids st \<noteq> []
       then (case save_existing_ids E (files (hw st)) (existing_ids st) of
               (Some e, d) \<Rightarrow> (Inl e, (hw st)\<lparr>files := d\<rparr>)
             | (None, d) \<Rightarrow> (Inr (total_new_articles st),
                        (hw st)\<lparr>files := d, trace := trace (hw st) @ [Flushed (existing_ids st)]\<rparr>))
       else (Inr (total_new_articles st), hw st))"
      unfolding scrape_category_def st_def st0_def by (simp only: Inr sum.case Let_def)
    then show ?thesis by (simp only: sv) (simp split: option.splits)
  qed
  show ?thesis
  proof (cases "new_ids st \<noteq> [] \<and> r = None")
    case True
    with run have "trace (snd (scrape_category E api w c n)) = trace w @ evs @ [Flushed (existing_ids st)]"
      by (simp add: t)
    moreover have "flushes_follow_marks ids (evs @ [Flushed (existing_ids st)])"
      by (rule flushes_follow_marks_end) (use f i in auto)
    ultimately show ?thesis using 1 m Inr
      by (intro exI[of _ "evs @ [Flushed (existing_ids st)]"] exI[of _ k])
         (simp add: marks_follow_writes_Flushed halts_when_idle_Flushed)
  next
    case False
    with run have "trace (snd (scrape_category E api w c n)) = trace w @ evs"
      by (auto simp: t split: option.splits)
    then show ?thesis using 1 m Inr f
      by (intro exI[of _ evs] exI[of _ k]) (simp add: flushes_follow_marks_none)
  qed
qed

subsection \<open>Lankadeepa: the pages and the articles\<close>

lemma lk_collect_world:
  "trace (snd (lk_collect E site c p n (acc, w))) = trace w @ map (\<lambda>k. Requested (k * 30)) [p..<p + n] \<and>
   files (snd (lk_collect E site c p n (acc, w))) = files w"
proof (induction n arbitrary: p acc w)
  case 0
  show ?case by simp
next
  case (Suc n)
  show ?case
  proof (cases "listing site c (p * 30)")
    case None
    then show ?thesis using Suc[of "Suc p"] by (simp add: Let_def upt_conv_Cons)
  next
    case (Some containers)
    obtain ad t' where e: "extract_article_urls_with_timestamps E (ticks w) containers = (ad, t')"
      by (meson surj_pair)
    with Some show ?thesis using Suc[of "Suc p"] by (simp add: Let_def upt_conv_Cons)
  qed
qed

lemma lk_save_article_trace:
  "lk_save_article E w a = (r, w') \<Longrightarrow>
   trace w' = trace w @ (case r of Inl e \<Rightarrow> [] | Inr f \<Rightarrow> [Wrote f (id_str a)])"
  by (auto simp: lk_save_article_def Let_def split: prod.splits option.splits)

lemma lk_step_crawl:
  "\<exists>evs. crawl_steps (lw st) (lk_existing_ids st) evs (lw (snd (lk_article_step E site st a)))
            (lk_existing_ids (snd (lk_article_step E site st a))) \<and> requested_pages evs = []"
proof -
  obtain u ts where a: "a = (u, ts)" by (cases a)
  show ?thesis
  proof (cases "encode_url E u")
    case (Inl e)
    then show ?thesis
      by (intro exI[of _ "[]"]) (simp add: lk_article_step_def a crawl_steps_refl)
  next
    case (Inr i)
    show ?thesis
    proof (cases "i \<in> set (lk_existing_ids st)")
      case True
      with Inr show ?thesis
        by (intro exI[of _ "[Skipped i]"]) (simp add: lk_article_step_def a crawl_steps_quiet)
    next
      case False
      define w1 where "w1 = (lw st)\<lparr>trace := trace (lw st) @ [Fetched u]\<rparr>"
      obtain r t' where sc: "scrape_article E site (ticks w1) u ts = (r, t')" by (meson surj_pair)
      have quiet: ?thesis if "lk_article_step E site st a = (x, st\<lparr>lw := w1\<lparr>ticks := t'\<rparr>\<rparr>)" for x
        using that by (intro exI[of _ "[Fetched u]"]) (simp add: w1_def crawl_steps_quiet)
      show ?thesis
      proof (cases r)
        case (Inl e)
        with Inr False sc have "lk_article_step E site st a = (Some e, st\<lparr>lw := w1\<lparr>ticks := t'\<rparr>\<rparr>)"
          by (simp add: lk_article_step_def a w1_def[symmetric] Let_def)
        then show ?thesis by (rule quiet)
      next
        case r: (Inr ao)
        show ?thesis
        proof (cases ao)
          case None
          with r Inr False sc have "lk_article_step E site st a = (None, st\<lparr>lw := w1\<lparr>ticks := t'\<rparr>\<rparr>)"
            by (simp add: lk_article_step_def a w1_def[symmetric] Let_def)
          then show ?thesis by (rule quiet)
        next
          case (Some article)
          show ?thesis
          proof (cases "headline article \<noteq> [] \<and> content article \<noteq> []")
            case chk: False
            then have g: "(headline article \<noteq> [] \<and> content article \<noteq> []) = False" by simp
            from Some r Inr False sc
            have "lk_article_step E site st a = (None, st\<lparr>lw := w1\<lparr>ticks := t'\<rparr>\<rparr>)"
              by (simp add: lk_article_step_def a w1_def[symmetric] Let_def g)
            then show ?thesis by (rule quiet)
          next
            case chk: True
            obtain r2 w' where sv: "lk_save_article E (w1\<lparr>ticks := t'\<rparr>) article = (r2, w')"
              by (meson surj_pair)
            note tr = lk_save_article_trace[OF sv]
            show ?thesis
            proof (cases r2)
              case (Inl e)
              with chk Some r Inr False sc sv
              have "lk_article_step E site st a = (Some e, st\<lparr>lw := w'\<rparr>)"
                by (simp add: lk_article_step_def a w1_def[symmetric] Let_def)
              with tr Inl show ?thesis
                by (intro exI[of _ "[Fetched u]"]) (simp add: w1_def crawl_steps_quiet)
            next
              case f: (Inr f)
              with chk Some r Inr False sc sv
              have s: "lk_article_step E site st a =
                  (None, st\<lparr>lw := w'\<lparr>trace := trace w' @ [Marked (id_str article)]\<rparr>,
                             lk_existing_ids := set_add (id_str article) (lk_existing_ids st),
                             new_articles := new_articles st + 1\<rparr>)"
                by (simp add: lk_article_step_def a w1_def[symmetric] Let_def)
              have "crawl_steps (lw st) (lk_existing_ids st)
                      ([Fetched u] @ [Wrote f (id_str article), Marked (id_str article)])
                      (lw (snd (lk_article_step E site st a)))
                      (lk_existing_ids (snd (lk_article_step E site st a)))"
                by (rule crawl_steps_save) (use tr f in \<open>auto simp: s w1_def set_add_def\<close>)
              then show ?thesis
                by (intro exI[of _ "[Fetched u] @ [Wrote f (id_str article), Marked (id_str article)]"])
                   simp
            qed
          qed
        qed
      qed
    qed
  qed
qed

lemma lk_loop_crawl:
  "\<exists>evs. crawl_steps (lw st) (lk_existing_ids st) evs (lw (snd (lk_article_loop E site st items)))
            (lk_existing_ids (snd (lk_article_loop E site st items))) \<and> requested_pages evs = []"
proof (induction items arbitrary: st)
  case Nil
  show ?case by (intro exI[of _ "[]"]) (simp add: crawl_steps_refl)
next
  case (Cons a items)
  obtain r st1 where s: "lk_article_step E site st a = (r, st1)" by (meson surj_pair)
  from lk_step_crawl[of st E site a] s obtain e1 where
    1: "crawl_steps (lw st) (lk_existing_ids st) e1 (lw st1) (lk_existing_ids st1)" "requested_pages e1 = []"
    by auto
  show ?case
  proof (cases r)
    case (Some e)
    with s 1 show ?thesis by (intro exI[of _ e1]) simp
  next
    case None
    from Cons.IH[of st1] obtain e2 where
      2: "crawl_steps (lw st1) (lk_existing_ids st1) e2 (lw (snd (lk_article_loop E site st1 items)))
            (lk_existing_ids (snd (lk_article_loop E site st1 items)))" "requested_pages e2 = []"
      by blast
    from None s crawl_steps_trans[OF 1(1) 2(1)] 1(2) 2(2) show ?thesis
      by (intro exI[of _ "e1 @ e2"]) simp
  qed
qed

lemma marks_follow_writes_requests: "marks_follow_writes (map (\<lambda>k. Requested (f k)) ks @ evs) = marks_follow_writes evs"
  by (induction ks) simp_all

lemma flushes_follow_marks_requests:
  "flushes_follow_marks known (map (\<lambda>k. Requested (f k)) ks @ evs) = flushes_follow_marks known evs"
  by (induction ks) simp_all

lemma requested_pages_requests: "requested_pages (map (\<lambda>k. Requested (f k)) ks) = map f ks"
  by (induction ks) simp_all

lemma lk_run:
  "\<exists>evs. trace (snd (lk_scrape_category E site w c n)) = trace w @ evs \<and>
     marks_follow_writes evs \<and>
     flushes_follow_marks (case lk_load_existing_ids (files w) of Inl e \<Rightarrow> [] | Inr ids \<Rightarrow> ids) evs \<and>
     requested_pages evs = map (\<lambda>k. k * 30) [0..<n]"
proof -
  let ?rq = "map (\<lambda>k. Requested (k * 30)) [0..<n]"
  obtain aad w1 where cl: "lk_collect E site c 0 n ([], w) = (aad, w1)" by (meson surj_pair)
  from lk_collect_world[of E site c 0 n "[]" w] cl
  have w1: "trace w1 = trace w @ ?rq" "files w1 = files w" by simp_all
  have base: ?thesis if "trace (snd (lk_scrape_category E site w c n)) = trace w1"
    using that w1
    by (intro exI[of _ ?rq])
       (simp add: marks_follow_writes_requests[where evs="[]", simplified]
          flushes_follow_marks_requests[where evs="[]", simplified] requested_pages_requests)
  show ?thesis
  proof (cases "writable E (asc ''step-01-output.json'')")
    case False
    then have "lk_scrape_category E site w c n = (Inl OSError, w1)"
      by (simp add: lk_scrape_category_def cl Let_def)
    then show ?thesis by (intro base) simp
  next
    case wr: True
    show ?thesis
    proof (cases "lk_load_existing_ids (files w1)")
      case (Inl e)
      with wr have "lk_scrape_category E site w c n = (Inl e, w1)"
        by (simp add: lk_scrape_category_def cl Let_def)
      then show ?thesis by (intro base) simp
    next
      case (Inr ids)
      define st0 where "st0 = \<lparr>lw = w1, lk_existing_ids = ids, new_articles = 0, skipped_articles = 0\<rparr>"
      obtain r st where lp: "lk_article_loop E site st0 (unique_by_url [] aad) = (r, st)"
        by (meson surj_pair)
      from lk_loop_crawl[of st0 E site "unique_by_url [] aad"] lp obtain evs where
        1: "crawl_steps w1 ids evs (lw st) (lk_existing_ids st)" "requested_pages evs = []"
        by (auto simp: st0_def)
      then have t: "trace (lw st) = trace w1 @ evs" and m: "marks_follow_writes evs"
        and i: "set (lk_existing_ids st) = set ids \<union> set (marked_ids evs)" and f: "flushed evs = []"
        by (simp_all add: crawl_steps_def)
      obtain r2 d where sv: "save_existing_ids E (files (lw st)) (lk_existing_ids st) = (r2, d)"
        by (meson surj_pair)
      have run: "lk_scrape_category E site w c n =
          (case r of Some e \<Rightarrow> (Inl e, lw st)
           | None \<Rightarrow> (case r2 of Some e \<Rightarrow> (Inl e, (lw st)\<lparr>files := d\<rparr>)
                      | None \<Rightarrow> (Inr (new_articles st, skipped_articles st),
                                 (lw st)\<lparr>files := d, trace := trace (lw st) @ [Flushed (lk_existing_ids st)]\<rparr>)))"
        using wr Inr lp sv
        by (simp add: lk_scrape_category_def cl Let_def st0_def[symmetric] split: option.splits)
      have k: "(case lk_load_existing_ids (files w) of Inl e \<Rightarrow> [] | Inr ids \<Rightarrow> ids) = ids"
        using Inr w1(2) by simp
      show ?thesis
      proof (cases "r = None \<and> r2 = None")
        case True
        with run have "trace (snd (lk_scrape_category E site w c n)) =
            trace w @ ?rq @ evs @ [Flushed (lk_existing_ids st)]"
          by (simp add: t w1)
        moreover have "flushes_follow_marks ids (evs @ [Flushed (lk_existing_ids st)])"
          by (rule flushes_follow_marks_end) (use f i in auto)
        ultimately show ?thesis using 1 m
          by (intro exI[of _ "?rq @ evs @ [Flushed (lk_existing_ids st)]"])
             (simp add: k marks_follow_writes_requests flushes_follow_marks_requests
                marks_follow_writes_Flushed requested_pages_requests)
      next
        case False
        with run have "trace (snd (lk_scrape_category E site w c n)) = trace w @ ?rq @ evs"
          by (auto simp: t w1 split: option.splits)
        then show ?thesis using 1 m f
          by (intro exI[of _ "?rq @ evs"])
             (simp add: k marks_follow_writes_requests flushes_follow_marks_requests
                flushes_follow_marks_none requested_pages_requests)
      qed
    qed
  qed
qed

subsection \<open>news_first: the articles\<close>

lemma save_article_to_file_trace:
  "save_article_to_file E w a = (r, w') \<Longrightarrow>
   trace w' = trace w @ (case r of Inl e \<Rightarrow> [] | Inr f \<Rightarrow> [Wrote f (id_str a)])"
  by (auto simp: save_article_to_file_def Let_def split: prod.splits option.splits)

lemma nf_step_crawl:
  "\<exists>evs. crawl_steps (nw st) (nf_existing_ids st) evs (nw (snd (nf_article_step E st a)))
            (nf_existing_ids (snd (nf_article_step E st a))) \<and>
     set (nf_new_ids (snd (nf_article_step E st a))) = set (nf_new_ids st) \<union> set (marked_ids evs)"
proof (cases "id_str a \<in> set (nf_existing_ids st)")
  case True
  then show ?thesis
    by (intro exI[of _ "[Skipped (id_str a)]"]) (simp add: nf_article_step_def crawl_steps_quiet)
next
  case False
  obtain r w' where sv: "save_article_to_file E (nw st) a = (r, w')" by (meson surj_pair)
  note tr = save_article_to_file_trace[OF sv]
  show ?thesis
  proof (cases r)
    case (Inl e)
    with False sv tr show ?thesis
      by (intro exI[of _ "[]"]) (simp add: nf_article_step_def crawl_steps_refl)
  next
    case f: (Inr f)
    have "crawl_steps (nw st) (nf_existing_ids st) ([] @ [Wrote f (id_str a), Marked (id_str a)])
            (nw (snd (nf_article_step E st a))) (nf_existing_ids (snd (nf_article_step E st a)))"
      by (rule crawl_steps_save) (use False sv tr f in \<open>auto simp: nf_article_step_def set_add_def\<close>)
    with False sv f show ?thesis
      by (intro exI[of _ "[Wrote f (id_str a), Marked (id_str a)]"])
         (auto simp: nf_article_step_def set_add_def)
  qed
qed

lemma nf_loop_crawl:
  "\<exists>evs. crawl_steps (nw st) (nf_existing_ids st) evs (nw (snd (nf_article_loop E st items)))
            (nf_existing_ids (snd (nf_article_loop E st items)))"
proof (induction items arbitrary: st)
  case Nil
  show ?case by (intro exI[of _ "[]"]) (simp add: crawl_steps_refl)
next
  case (Cons a items)
  obtain r st1 where s: "nf_article_step E st a = (r, st1)" by (meson surj_pair)
  from nf_step_crawl[of st E a] s obtain e1 where
    1: "crawl_steps (nw st) (nf_existing_ids st) e1 (nw st1) (nf_existing_ids st1)"
    by auto
  show ?case
  proof (cases r)
    case (Some e)
    with s 1 show ?thesis by (intro exI[of _ e1]) simp
  next
    case None
    from Cons.IH[of st1] obtain e2 where
      2: "crawl_steps (nw st1) (nf_existing_ids st1) e2 (nw (snd (nf_article_loop E st1 items)))
            (nf_existing_ids (snd (nf_article_loop E st1 items)))"
      by blast
    from None s crawl_steps_trans[OF 1(1) 2(1)] show ?thesis
      by (intro exI[of _ "e1 @ e2"]) simp
  qed
qed

lemma nf_run:
  "\<exists>evs. trace (snd (save_articles_by_category E w articles)) = trace w @ evs \<and>
     marks_follow_writes evs \<and>
     flushes_follow_marks (case load_existing_ids (files w) of Inl e \<Rightarrow> [] | Inr ids \<Rightarrow> ids) evs"
proof (cases "load_existing_ids (files w)")
  case (Inl e)
  then show ?thesis by (intro exI[of _ "[]"]) (simp add: save_articles_by_category_def)
next
  case (Inr ids)
  define st0 where "st0 = \<lparr>nw = w, nf_existing_ids = ids, nf_new_ids = [], saved_files = []\<rparr>"
  obtain r st where lp: "nf_article_loop E st0 articles = (r, st)" by (meson surj_pair)
  from nf_loop_crawl[of st0 E articles] lp obtain evs where
    1: "crawl_steps w ids evs (nw st) (nf_existing_ids st)"
    by (auto simp: st0_def)
  then have t: "trace (nw st) = trace w @ evs" and m: "marks_follow_writes evs"
    and i: "set (nf_existing_ids st) = set ids \<union> set (marked_ids evs)" and f: "flushed evs = []"
    by (simp_all add: crawl_steps_def)
  obtain r2 d where sv: "save_existing_ids E (files (nw st)) (nf_existing_ids st) = (r2, d)"
    by (meson surj_pair)
  have run: "save_articles_by_category E w articles =
      (case r of Some e \<Rightarrow> (Inl e, nw st)
       | None \<Rightarrow>
           if nf_new_ids st \<noteq> []
           then (case r2 of Some e \<Rightarrow> (Inl e, (nw st)\<lparr>files := d\<rparr>)
                 | None \<Rightarrow> (Inr (saved_files st),
                            (nw st)\<lparr>files := d, trace := trace (nw st) @ [Flushed (nf_existing_ids st)]\<rparr>))
           else (Inr (saved_files st), nw st))"
    using Inr lp sv
    by (simp add: save_articles_by_category_def st0_def[symmetric] split: option.splits)
  show ?thesis
  proof (cases "r = None \<and> nf_new_ids st \<noteq> [] \<and> r2 = None")
    case True
    with run have "trace (snd (save_articles_by_category E w articles)) =
        trace w @ evs @ [Flushed (nf_existing_ids st)]"
      by (simp add: t)
    moreover have "flushes_follow_marks ids (evs @ [Flushed (nf_existing_ids st)])"
      by (rule flushes_follow_marks_end) (use f i in auto)
    ultimately show ?thesis using m Inr
      by (intro exI[of _ "evs @ [Flushed (nf_existing_ids st)]"]) (simp add: marks_follow_writes_Flushed)
  next
    case False
    with run have "trace (snd (save_articles_by_category E w articles)) = trace w @ evs"
      by (auto simp: t split: option.splits)
    then show ?thesis using m Inr f
      by (intro exI[of _ evs]) (simp add: flushes_follow_marks_none)
  qed
qed

subsection \<open>The Seen-Set grows only after a write\<close>

text \<open>
  Claim C2. In a run of hirunews, of Lankadeepa and of news_first over one category,
  whatever the site returns and whichever writes fail, every addition of an id to the
  in-memory Seen-Set comes directly after the writing of an article record with that id,
  and every Seen-Set written to \<^verbatim>\<open>existing_ids.json\<close> holds only ids that were loaded
  from it at the start or have been added in this way. A record counts as written where
  the save has returned: the file then holds the document; where the save raises, nothing
  is recorded as written, so that no id is added for it.
\<close>

theorem seen_only_after_write:
  "(\<exists>evs. trace (snd (scrape_category E api w c n)) = trace w @ evs \<and> marks_follow_writes evs \<and>
       flushes_follow_marks (case load_existing_ids (files w) of Inl e \<Rightarrow> [] | Inr ids \<Rightarrow> ids) evs)
   \<and> (\<exists>evs. trace (snd (lk_scrape_category E site w c n)) = trace w @ evs \<and> marks_follow_writes evs \<and>
       flushes_follow_marks (case lk_load_existing_ids (files w) of Inl e \<Rightarrow> [] | Inr ids \<Rightarrow> ids) evs)
   \<and> (\<exists>evs. trace (snd (save_articles_by_category E w articles)) = trace w @ evs \<and>
       marks_follow_writes evs \<and>
       flushes_follow_marks (case load_existing_ids (files w) of Inl e \<Rightarrow> [] | Inr ids \<Rightarrow> ids) evs)
   \<and> (case save_article E w a c of
        (Inr f, w') \<Rightarrow> record_present (files w') (f, id_str a) \<and> trace w' = trace w @ [Wrote f (id_str a)]
      | (Inl e, w') \<Rightarrow> trace w' = trace w)
   \<and> (case lk_save_article E w a of
        (Inr f, w') \<Rightarrow> record_present (files w') (f, id_str a) \<and> trace w' = trace w @ [Wrote f (id_str a)]
      | (Inl e, w') \<Rightarrow> trace w' = trace w)
   \<and> (case save_article_to_file E w a of
        (Inr f, w') \<Rightarrow> record_present (files w') (f, id_str a) \<and> trace w' = trace w @ [Wrote f (id_str a)]
      | (Inl e, w') \<Rightarrow> trace w' = trace w)"
proof (intro conjI)
  show "\<exists>evs. trace (snd (scrape_category E api w c n)) = trace w @ evs \<and> marks_follow_writes evs \<and>
       flushes_follow_marks (case load_existing_ids (files w) of Inl e \<Rightarrow> [] | Inr ids \<Rightarrow> ids) evs"
    using hiru_run[of E api w c n] by blast
  show "\<exists>evs. trace (snd (lk_scrape_category E site w c n)) = trace w @ evs \<and> marks_follow_writes evs \<and>
       flushes_follow_marks (case lk_load_existing_ids (files w) of Inl e \<Rightarrow> [] | Inr ids \<Rightarrow> ids) evs"
    using lk_run[of E site w c n] by blast
  show "\<exists>evs. trace (snd (save_articles_by_category E w articles)) = trace w @ evs \<and>
       marks_follow_writes evs \<and>
       flushes_follow_marks (case load_existing_ids (files w) of Inl e \<Rightarrow> [] | Inr ids \<Rightarrow> ids) evs"
    by (rule nf_run)
  show "case save_article E w a c of
        (Inr f, w') \<Rightarrow> record_present (files w') (f, id_str a) \<and> trace w' = trace w @ [Wrote f (id_str a)]
      | (Inl e, w') \<Rightarrow> trace w' = trace w"
    by (auto simp: save_article_def Let_def record_present_def article_dict_def
          dest!: write_json_returned split: prod.splits option.splits sum.splits)
  show "case lk_save_article E w a of
        (Inr f, w') \<Rightarrow> record_present (files w') (f, id_str a) \<and> trace w' = trace w @ [Wrote f (id_str a)]
      | (Inl e, w') \<Rightarrow> trace w' = trace w"
    by (auto simp: lk_save_article_def Let_def record_present_def
          dest!: write_json_returned split: prod.splits option.splits sum.splits)
  show "case save_article_to_file E w a of
        (Inr f, w') \<Rightarrow> record_present (files w') (f, id_str a) \<and> trace w' = trace w @ [Wrote f (id_str a)]
      | (Inl e, w') \<Rightarrow> trace w' = trace w"
    by (auto simp: save_article_to_file_def Let_def record_present_def
          dest!: write_json_returned split: prod.splits option.splits sum.splits)
qed

text \<open>
  The theorem at the example listing of hirunews and at the example site of Lankadeepa,
  crawled from an empty directory, at the record of the first listing entry, and at a
  record whose id has no UTF-8 encoding, for which the write fails.
\<close>

theorem seen_only_after_write_witness:
  "marks_follow_writes (trace (snd (scrape_category example_env example_api empty_world (asc ''Sports'') 2)))
   \<and> flushes_follow_marks [] (trace (snd (scrape_category example_env example_api empty_world (asc ''Sports'') 2)))
   \<and> marks_follow_writes (trace (snd (lk_scrape_category example_env example_site empty_world (asc ''sports'') 2)))
   \<and> marks_follow_writes (trace (snd (save_articles_by_category example_env empty_world [example_article])))
   \<and> trace (snd (save_article example_env empty_world (example_article\<lparr>id_str := [55296]\<rparr>) (asc ''Sports'')))
       = []"
proof -
  note th = seen_only_after_write[where E=example_env and api=example_api and w=empty_world
      and c="asc ''Sports''" and n=2 and articles="[example_article]"
      and a="example_article\<lparr>id_str := [55296]\<rparr>"]
  note th2 = seen_only_after_write[where E=example_env and site=example_site and w=empty_world
      and c="asc ''sports''" and n=2]
  have l: "load_existing_ids (files empty_world) = Inr []"
    by (simp add: load_existing_ids_def empty_world_def)
  have t0: "trace empty_world = []" by (simp add: empty_world_def)
  from th obtain evs where "trace (snd (scrape_category example_env example_api empty_world (asc ''Sports'') 2))
      = trace empty_world @ evs" "marks_follow_writes evs"
      "flushes_follow_marks (case load_existing_ids (files empty_world) of Inl e \<Rightarrow> [] | Inr ids \<Rightarrow> ids) evs"
    by blast
  then have A: "marks_follow_writes (trace (snd (scrape_category example_env example_api empty_world (asc ''Sports'') 2)))"
    "flushes_follow_marks [] (trace (snd (scrape_category example_env example_api empty_world (asc ''Sports'') 2)))"
    by (simp_all add: l t0)
  from th2 obtain evs where
    "trace (snd (lk_scrape_category example_env example_site empty_world (asc ''sports'') 2))
      = trace empty_world @ evs" "marks_follow_writes evs"
    by blast
  then have B: "marks_follow_writes
      (trace (snd (lk_scrape_category example_env example_site empty_world (asc ''sports'') 2)))"
    by (simp add: t0)
  from th obtain evs where
    "trace (snd (save_articles_by_category example_env empty_world [example_article]))
      = trace empty_world @ evs" "marks_follow_writes evs"
    by blast
  then have C: "marks_follow_writes
      (trace (snd (save_articles_by_category example_env empty_world [example_article])))"
    by (simp add: t0)
  have s: "fst (save_article example_env empty_world (example_article\<lparr>id_str := [55296]\<rparr>) (asc ''Sports''))
             = Inl UnicodeEncodeError"
    by (simp add: save_article_def example_article_def example_env_def example_fromisoformat_def
          valid_only_def valid_datetime_def days_in_month_def asc_def parse_ymdhms_def is_digit_def
          write_json_def open_w_def dump_json_def article_dict_def encodable_def utf8_char_def Let_def)
  from th[THEN conjunct2, THEN conjunct2, THEN conjunct2, THEN conjunct1]
  have "case save_article example_env empty_world (example_article\<lparr>id_str := [55296]\<rparr>) (asc ''Sports'') of
        (Inr f, w') \<Rightarrow> record_present (files w') (f, id_str (example_article\<lparr>id_str := [55296]\<rparr>)) \<and>
           trace w' = trace empty_world @ [Wrote f (id_str (example_article\<lparr>id_str := [55296]\<rparr>))]
      | (Inl e, w') \<Rightarrow> trace w' = trace empty_world"
    by simp
  with s have D: "trace (snd (save_article example_env empty_world (example_article\<lparr>id_str := [55296]\<rparr>)
                     (asc ''Sports''))) = []"
    by (cases "save_article example_env empty_world (example_article\<lparr>id_str := [55296]\<rparr>) (asc ''Sports'')")
       (auto simp: t0)
  from A B C D show ?thesis by blast
qed

subsection \<open>The end of pagination\<close>

text \<open>
  Claim C6, as amended. In a run of hirunews no listing page is requested after a page
  during which no article record was written, and the pages requested are the pages
  \<open>1, ..., k\<close> for some \<open>k\<close> up to \<^verbatim>\<open>max_pages\<close>. A run of Lankadeepa requests every
  one of its \<^verbatim>\<open>num_pages\<close> listing pages, at the offsets \<open>0, 30, ...\<close>, whatever the
  pages and the Seen-Set hold.
\<close>

theorem pagination_halts_in_hirunews:
  "(\<exists>evs k. trace (snd (scrape_category E api w c n)) = trace w @ evs \<and> halts_when_idle True evs \<and>
       k \<le> n \<and> requested_pages evs = [1..<1 + k])
   \<and> (\<exists>evs. trace (snd (lk_scrape_category E site w c n)) = trace w @ evs \<and>
       requested_pages evs = map (\<lambda>k. k * 30) [0..<n])"
proof (intro conjI)
  show "\<exists>evs k. trace (snd (scrape_category E api w c n)) = trace w @ evs \<and> halts_when_idle True evs \<and>
       k \<le> n \<and> requested_pages evs = [1..<1 + k]"
    using hiru_run[of E api w c n] by blast
  show "\<exists>evs. trace (snd (lk_scrape_category E site w c n)) = trace w @ evs \<and>
       requested_pages evs = map (\<lambda>k. k * 30) [0..<n]"
    using lk_run[of E site w c n] by blast
qed

lemma example_hrefs:
  "lk_valid_href example_url1" "lk_valid_href example_url2" "example_url2 \<noteq> example_url1"
  by (simp_all add: lk_valid_href_def example_url1_def example_url2_def py_startswith_def asc_def)

lemma example_listing:
  "listing example_site c 0 = Some [\<lparr>href = Some example_url1, timec = None\<rparr>]"
  "listing example_site c 30 = Some [\<lparr>href = Some example_url2, timec = None\<rparr>]"
  by (simp_all add: example_site_def)

lemma example_collect:
  "lk_collect example_env example_site c 0 (Suc (Suc 0)) ([], w) =
     ([(example_url1, None), (example_url2, None)],
      w\<lparr>trace := trace w @ [Requested 0, Requested 30]\<rparr>)"
  by (simp add: example_listing extract_article_urls_with_timestamps_def extract_step_def example_hrefs
        Let_def)

lemma example_ids:
  "encode_url example_env example_url1 = Inr (hexdigest example_url1)"
  "encode_url example_env example_url2 = Inr (hexdigest example_url2)"
  "hexdigest example_url2 \<noteq> hexdigest example_url1"
  by (simp_all add: encode_url_def example_env_def example_url1_def example_url2_def asc_def utf8_char_def
        hexdigest_def hex_digit_def)

lemma example_empty_page:
  "scrape_article example_env example_site t example_url2 None =
     (Inr (Some \<lparr>id_str = hexdigest example_url2, source = asc ''Lankadeepa'', headline = asc ''Semi'',
                 content = [], timestamp = isoformat (example_clock t), url = example_url2\<rparr>), Suc t)"
proof -
  have c: "clock example_env = example_clock" by (simp add: example_env_def)
  show ?thesis
    using example_hrefs(3)
    by (simp add: scrape_article_def example_site_def truthy_def now_iso_def example_ids c)
qed

text \<open>
  The theorem at the example listing of hirunews, crawled from an empty directory, and at
  the example site of Lankadeepa with the first article in the Seen-Set.
\<close>

theorem pagination_halts_in_hirunews_witness:
  "halts_when_idle True (trace (snd (scrape_category example_env example_api empty_world (asc ''Sports'') 2)))
   \<and> requested_pages
        (trace (snd (lk_scrape_category example_env example_site example_seen_world (asc ''sports'') 2)))
       = [0, 30]"
proof -
  note t1 = pagination_halts_in_hirunews[where E=example_env and api=example_api and w=empty_world
      and c="asc ''Sports''" and n=2]
  note t2 = pagination_halts_in_hirunews[where E=example_env and site=example_site and w=example_seen_world
      and c="asc ''sports''" and n=2]
  have m: "map (\<lambda>k. k * 30) [0..<2] = [0, 30::nat]" by (simp add: upt_rec)
  from t1 obtain evs where "trace (snd (scrape_category example_env example_api empty_world (asc ''Sports'') 2))
      = trace empty_world @ evs" "halts_when_idle True evs"
    by blast
  then have A: "halts_when_idle True
      (trace (snd (scrape_category example_env example_api empty_world (asc ''Sports'') 2)))"
    by (simp add: empty_world_def)
  from t2 obtain evs where
    "trace (snd (lk_scrape_category example_env example_site example_seen_world (asc ''sports'') 2))
      = trace example_seen_world @ evs" "requested_pages evs = map (\<lambda>k. k * 30) [0..<2]"
    by blast
  then have B: "requested_pages
        (trace (snd (lk_scrape_category example_env example_site example_seen_world (asc ''sports'') 2)))
       = [0, 30]"
    by (simp add: example_seen_world_def m)
  from A B show ?thesis by blast
qed

text \<open>
  Claim C6 as stated fails for Lankadeepa: the Seen-Set holds the article of the first
  listing page of the example site, so that this page yields no new record, and the
  second listing page, at offset 30, is requested all the same; it was requested before
  the Seen-Set was loaded.
\<close>

theorem lankadeepa_requests_every_page_counterexample:
  "lk_load_existing_ids (files example_seen_world) = Inr [hexdigest example_url1]
   \<and> lk_scrape_category example_env example_site example_seen_world (asc ''sports'') 2 =
       (Inr (0, 1),
        example_seen_world\<lparr>ticks := 1,
          trace := [Requested 0, Requested 30, Skipped (hexdigest example_url1), Fetched example_url2,
                    Flushed [hexdigest example_url1]]\<rparr>)"
proof -
  have l: "lk_load_existing_ids (files example_seen_world) = Inr [hexdigest example_url1]"
    by (simp add: example_seen_world_def lk_load_existing_ids_def)
  have e: "writable example_env = (\<lambda>name. True)" "storable example_env = (\<lambda>name. True)"
    by (simp_all add: example_env_def)
  have enc: "encodable (hexdigest example_url1)"
    by (simp add: encodable_def example_url1_def asc_def utf8_char_def hexdigest_def hex_digit_def)
  have two: "(2::nat) = Suc (Suc 0)" by simp
  have f: "files (example_seen_world\<lparr>trace := tr\<rparr>) = files example_seen_world" for tr by simp
  have u: "unique_by_url [] [(example_url1, None), (example_url2, None)] =
             [(example_url1, None), (example_url2, None)]"
    using example_hrefs(3) by simp
  have "lk_scrape_category example_env example_site example_seen_world (asc ''sports'') (Suc (Suc 0)) =
       (Inr (0, Suc 0),
        example_seen_world\<lparr>ticks := Suc 0,
          trace := [Requested 0, Requested 30, Skipped (hexdigest example_url1), Fetched example_url2,
                    Flushed [hexdigest example_url1]]\<rparr>)"
    using example_ids(3) example_hrefs(3)
    by (simp add: lk_scrape_category_def example_collect u e f l lk_article_step_def example_ids
          example_empty_page Let_def save_existing_ids_def write_json_def open_w_def dump_json_def enc
          del: lk_collect.simps)
       (simp add: example_seen_world_def)
  then show ?thesis using l by (simp add: two)
qed

subsection \<open>Loading the Seen-Set\<close>

text \<open>
  Claim C3. Where no Seen-Set file exists, loading returns the empty set in hirunews,
  news_first and Lankadeepa. Where the file is not a JSON document, loading returns the
  empty set in hirunews and news_first, and in Lankadeepa it raises
  \<^verbatim>\<open>JSONDecodeError\<close>, which is the failing input of the claim.
\<close>

theorem load_existing_ids_absent_or_malformed:
  "load_existing_ids (d(seen_file := None)) = Inr []
   \<and> load_existing_ids (d(seen_file \<mapsto> NotJson)) = Inr []
   \<and> lk_load_existing_ids (d(seen_file := None)) = Inr []
   \<and> lk_load_existing_ids (d(seen_file \<mapsto> NotJson)) = Inl JSONDecodeError"
  by (simp add: load_existing_ids_def lk_load_existing_ids_def)

subsection \<open>Article ids\<close>

lemma utf8_encode_append:
  "utf8_encode (xs @ ys) =
     (case utf8_encode xs of Inl e \<Rightarrow> Inl e
      | Inr bs \<Rightarrow> (case utf8_encode ys of Inl e \<Rightarrow> Inl e | Inr cs \<Rightarrow> Inr (bs @ cs)))"
  by (induction xs) (auto split: option.splits sum.splits)

lemma utf8_encode_slash: "utf8_encode k = Inr bs \<Longrightarrow> utf8_encode (k @ [47]) = Inr (bs @ [47])"
  by (simp add: utf8_encode_append utf8_char_def)

lemma parse_article_id:
  assumes "parse_article E t d c = (Inr a, t')"
  shows "get_md5_hash E (dict_get d (asc ''seourltitle'') []) = Inr (id_str a)"
  using assms by (auto simp: parse_article_def Let_def split: sum.splits option.splits prod.splits)

lemma scrape_article_id:
  assumes "scrape_article E site t u pre = (Inr (Some a), t')"
  shows "encode_url E u = Inr (id_str a) \<and> url a = u"
  using assms by (auto simp: scrape_article_def Let_def split: sum.splits option.splits prod.splits if_splits)

lemma convert_post_id:
  assumes "convert_post E p = Inr a"
  shows "get_md5_hash E (url a) = Inr (id_str a) \<and>
         url a = asc ''https://sinhala.newsfirst.lk/'' @ (case post_url p of Some u \<Rightarrow> u | None \<Rightarrow> [])"
  using assms by (auto simp: convert_post_def Let_def split: sum.splits option.splits)

lemma lk_article_step_known:
  assumes "encode_url E u = Inr i" "i \<in> set (lk_existing_ids st)"
  shows "lk_article_step E site st (u, ts) =
           (None, st\<lparr>lw := (lw st)\<lparr>trace := trace (lw st) @ [Skipped i]\<rparr>,
                      skipped_articles := skipped_articles st + 1\<rparr>)"
  using assms by (simp add: lk_article_step_def)

text \<open>
  Claim C5, as amended. No call site canonicalizes the natural key: the article id is
  the hexadecimal MD5 digest of the UTF-8 bytes of the key as it is given, and a key
  with a trailing slash is hashed from the longer byte string. This is so where
  hirunews reads \<^verbatim>\<open>seourltitle\<close>, where Lankadeepa builds the record of an article
  and where it looks the URL up in the Seen-Set, and where news_first hashes the
  article's URL.
\<close>

theorem ids_hash_raw_keys:
  "(utf8_encode k = Inr bs \<longrightarrow>
      get_md5_hash E k = Inr (hexdigest (md5 E bs)) \<and> encode_url E k = Inr (hexdigest (md5 E bs)) \<and>
      get_md5_hash E (k @ [47]) = Inr (hexdigest (md5 E (bs @ [47]))) \<and>
      encode_url E (k @ [47]) = Inr (hexdigest (md5 E (bs @ [47]))))
   \<and> (parse_article E t d c = (Inr a, t') \<longrightarrow>
        get_md5_hash E (dict_get d (asc ''seourltitle'') []) = Inr (id_str a))
   \<and> (scrape_article E site t u pre = (Inr (Some a2), t2) \<longrightarrow> encode_url E u = Inr (id_str a2))
   \<and> (encode_url E u = Inr i \<and> i \<in> set (lk_existing_ids st) \<longrightarrow>
        lk_article_step E site st (u, ts) =
           (None, st\<lparr>lw := (lw st)\<lparr>trace := trace (lw st) @ [Skipped i]\<rparr>,
                      skipped_articles := skipped_articles st + 1\<rparr>))
   \<and> (convert_post E p = Inr a3 \<longrightarrow>
        get_md5_hash E (asc ''https://sinhala.newsfirst.lk/'' @
                          (case post_url p of Some v \<Rightarrow> v | None \<Rightarrow> [])) = Inr (id_str a3))"
proof (intro conjI impI)
  assume "utf8_encode k = Inr bs"
  then show "get_md5_hash E k = Inr (hexdigest (md5 E bs))" "encode_url E k = Inr (hexdigest (md5 E bs))"
    "get_md5_hash E (k @ [47]) = Inr (hexdigest (md5 E (bs @ [47])))"
    "encode_url E (k @ [47]) = Inr (hexdigest (md5 E (bs @ [47])))"
    by (simp_all add: get_md5_hash_def encode_url_def utf8_encode_slash)
next
  assume "parse_article E t d c = (Inr a, t')"
  then show "get_md5_hash E (dict_get d (asc ''seourltitle'') []) = Inr (id_str a)"
    by (rule parse_article_id)
next
  assume "scrape_article E site t u pre = (Inr (Some a2), t2)"
  then show "encode_url E u = Inr (id_str a2)" using scrape_article_id by blast
next
  assume "encode_url E u = Inr i \<and> i \<in> set (lk_existing_ids st)"
  then show "lk_article_step E site st (u, ts) =
           (None, st\<lparr>lw := (lw st)\<lparr>trace := trace (lw st) @ [Skipped i]\<rparr>,
                      skipped_articles := skipped_articles st + 1\<rparr>)"
    by (simp add: lk_article_step_known)
next
  assume "convert_post E p = Inr a3"
  then show "get_md5_hash E (asc ''https://sinhala.newsfirst.lk/'' @
                          (case post_url p of Some v \<Rightarrow> v | None \<Rightarrow> [])) = Inr (id_str a3)"
    using convert_post_id by metis
qed

lemma utf8_encode_ascii: "list_all (\<lambda>c. c < 128) s \<Longrightarrow> utf8_encode s = Inr s"
  by (induction s) (simp_all add: utf8_char_def)

lemma asc_lt_128_examples:
  "list_all (\<lambda>c. c < 128) (asc ''sports/1'')"
  "list_all (\<lambda>c. c < 128) example_url1"
  "list_all (\<lambda>c. c < 128) (asc ''https://sinhala.newsfirst.lk/2025/06/03/final'')"
  by (simp_all add: asc_def example_url1_def)

text \<open>The theorem at the keys and pages of the examples.\<close>

theorem ids_hash_raw_keys_witness:
  "get_md5_hash example_env (asc ''sports/1'') = Inr (hexdigest (asc ''sports/1''))
   \<and> get_md5_hash example_env (asc ''sports/1'' @ [47]) = Inr (hexdigest (asc ''sports/1'' @ [47]))
   \<and> id_str (projr (fst (parse_article example_env 0 example_item []))) = hexdigest (asc ''sports/1'')
   \<and> id_str (the (projr (fst (scrape_article example_env example_site 0 example_url1 None))))
       = hexdigest example_url1
   \<and> fst (lk_article_step example_env example_site
            \<lparr>lw = empty_world, lk_existing_ids = [hexdigest example_url1], new_articles = 0,
             skipped_articles = 0\<rparr> (example_url1, None)) = None
   \<and> id_str (projr (convert_post example_env example_post))
       = hexdigest (asc ''https://sinhala.newsfirst.lk/2025/06/03/final'')"
proof -
  let ?st = "\<lparr>lw = empty_world, lk_existing_ids = [hexdigest example_url1], new_articles = 0,
             skipped_articles = 0\<rparr>"
  have e1: "utf8_encode (asc ''sports/1'') = Inr (asc ''sports/1'')"
    and e2: "utf8_encode example_url1 = Inr example_url1"
    and e3: "utf8_encode (asc ''https://sinhala.newsfirst.lk/2025/06/03/final'')
             = Inr (asc ''https://sinhala.newsfirst.lk/2025/06/03/final'')"
    by (simp_all add: utf8_encode_ascii asc_lt_128_examples)
  have m: "md5 example_env = (\<lambda>bs. bs)" by (simp add: example_env_def)
  obtain a t' where p: "parse_article example_env 0 example_item [] = (Inr a, t')"
    by (cases "parse_article example_env 0 example_item []")
       (auto simp: parse_article_def get_md5_hash_def example_item_def dict_get_def asc_def
             utf8_char_def Let_def split: option.splits)
  have s0: "dict_get example_item (asc ''seourltitle'') [] = asc ''sports/1''"
    by (simp add: example_item_def dict_get_def asc_def)
  obtain a2 t2 where s: "scrape_article example_env example_site 0 example_url1 None = (Inr (Some a2), t2)"
    by (cases "scrape_article example_env example_site 0 example_url1 None")
       (auto simp: scrape_article_def example_site_def encode_url_def e2 truthy_def now_iso_def
             split: prod.splits)
  have k: "encode_url example_env example_url1 = Inr (hexdigest example_url1) \<and>
           hexdigest example_url1 \<in> set (lk_existing_ids ?st)"
    by (simp add: encode_url_def e2 m)
  have u0: "asc ''https://sinhala.newsfirst.lk/'' @ asc ''2025/06/03/final''
            = asc ''https://sinhala.newsfirst.lk/2025/06/03/final''"
    by (simp add: asc_def)
  obtain a3 where c: "convert_post example_env example_post = Inr a3"
    by (cases "convert_post example_env example_post")
       (auto simp: convert_post_def get_md5_hash_def example_post_def u0 e3 Let_def)
  have u: "asc ''https://sinhala.newsfirst.lk/'' @ (case post_url example_post of Some v \<Rightarrow> v | None \<Rightarrow> [])
            = asc ''https://sinhala.newsfirst.lk/2025/06/03/final''"
    by (simp add: example_post_def asc_def)
  note th = ids_hash_raw_keys[where k="asc ''sports/1''" and bs="asc ''sports/1''" and E=example_env
      and t=0 and d=example_item and c="[]" and a=a and t'=t' and site=example_site
      and u=example_url1 and pre=None and ?a2.0=a2 and ?t2.0=t2 and i="hexdigest example_url1"
      and st="?st" and ts=None and p=example_post and ?a3.0=a3]
  from th e1 have A: "get_md5_hash example_env (asc ''sports/1'') = Inr (hexdigest (asc ''sports/1''))"
      "get_md5_hash example_env (asc ''sports/1'' @ [47]) = Inr (hexdigest (asc ''sports/1'' @ [47]))"
    unfolding m by blast+
  from th p have "get_md5_hash example_env (dict_get example_item (asc ''seourltitle'') []) = Inr (id_str a)"
    by blast
  with A(1) have B: "id_str a = hexdigest (asc ''sports/1'')" by (simp add: s0)
  from th s have "encode_url example_env example_url1 = Inr (id_str a2)" by blast
  with k have C: "id_str a2 = hexdigest example_url1" by simp
  from th k have D: "fst (lk_article_step example_env example_site ?st (example_url1, None)) = None"
    by simp
  from th c have "get_md5_hash example_env (asc ''https://sinhala.newsfirst.lk/'' @
      (case post_url example_post of Some v \<Rightarrow> v | None \<Rightarrow> [])) = Inr (id_str a3)" by blast
  then have E: "id_str a3 = hexdigest (asc ''https://sinhala.newsfirst.lk/2025/06/03/final'')"
    by (simp add: u get_md5_hash_def e3 m)
  from A B C D E show ?thesis by (simp add: p s c)
qed

text \<open>
  Claim C5 as stated fails: a URL and the same URL with a trailing slash are handed to
  the digest as different byte strings, and under a digest that tells them apart, as
  MD5 does for these two, they have different ids.
\<close>

theorem trailing_slash_counterexample:
  "utf8_encode example_url1 = Inr example_url1
   \<and> utf8_encode (example_url1 @ asc ''/'') = Inr (example_url1 @ asc ''/'')
   \<and> encode_url example_env (example_url1 @ asc ''/'') \<noteq> encode_url example_env example_url1
   \<and> get_md5_hash example_env (asc ''sports/1/'') \<noteq> get_md5_hash example_env (asc ''sports/1'')"
  by (simp add: encode_url_def get_md5_hash_def example_env_def example_url1_def asc_def
        utf8_char_def hexdigest_def)

subsection \<open>Records without a headline or without content\<close>

lemma scrape_article_page:
  assumes "article_page site u = Some pg" "encode_url E u = Inr i"
  shows "\<exists>a t'. scrape_article E site t u ts = (Inr (Some a), t') \<and> headline a = pg_headline pg \<and>
                content a = pg_content pg"
proof -
  obtain x t1 where x: "(if truthy ts then (case ts of Some s \<Rightarrow> s | None \<Rightarrow> [], t)
                 else case now_iso (clock E) t of
                        (dflt, t1) \<Rightarrow>
                          (case pg_date_part pg of
                             None \<Rightarrow> (dflt, t1)
                           | Some date_part \<Rightarrow> parse_sinhala_date E t1 date_part)) = (x, t1)"
    by (meson surj_pair)
  show ?thesis by (simp add: scrape_article_def assms x)
qed

text \<open>
  Claim C7, as amended. Lankadeepa and ITN check the two fields. In the loop of Lankadeepa, a
  candidate that is not in the Seen-Set and whose article page yields an empty headline or
  an empty content is fetched and nothing more: no file is written, the Seen-Set and the
  count of new articles stay as they were. In ITN \<^verbatim>\<open>scrape_individual_article\<close>
  returns \<^verbatim>\<open>None\<close> for such a page and the loop of \<^verbatim>\<open>scrape_category\<close> does not
  collect it. hirunews has no such check.
\<close>

theorem record_needs_headline_and_content:
  "(article_page site u = Some pg \<and> (pg_headline pg = [] \<or> pg_content pg = []) \<and>
    encode_url E u = Inr i \<and> i \<notin> set (lk_existing_ids st)
    \<longrightarrow> fst (lk_article_step E site st (u, ts)) = None \<and>
        files (lw (snd (lk_article_step E site st (u, ts)))) = files (lw st) \<and>
        trace (lw (snd (lk_article_step E site st (u, ts)))) = trace (lw st) @ [Fetched u] \<and>
        lk_existing_ids (snd (lk_article_step E site st (u, ts))) = lk_existing_ids st \<and>
        new_articles (snd (lk_article_step E site st (u, ts))) = new_articles st)
   \<and> (fetch v = Some ipg \<and>
      ((if info_headline info \<noteq> [] then info_headline info else itn_title ipg) = [] \<or> itn_text ipg = [])
      \<longrightarrow> scrape_individual_article E fetch v info = None)
   \<and> (scrape_individual_article E fetch (info_url info) info = None
      \<longrightarrow> itn_collect E fetch all_articles info = all_articles)"
proof (intro conjI impI)
  assume h: "article_page site u = Some pg \<and> (pg_headline pg = [] \<or> pg_content pg = []) \<and>
    encode_url E u = Inr i \<and> i \<notin> set (lk_existing_ids st)"
  then obtain a t' where a: "scrape_article E site (ticks (lw st)) u ts = (Inr (Some a), t')"
    "headline a = pg_headline pg" "content a = pg_content pg"
    using scrape_article_page[of site u pg E i "ticks (lw st)" ts] by blast
  from h a have s: "lk_article_step E site st (u, ts) =
      (None, st\<lparr>lw := (lw st)\<lparr>trace := trace (lw st) @ [Fetched u], ticks := t'\<rparr>\<rparr>)"
    by (auto simp: lk_article_step_def Let_def)
  show "fst (lk_article_step E site st (u, ts)) = None"
    "files (lw (snd (lk_article_step E site st (u, ts)))) = files (lw st)"
    "trace (lw (snd (lk_article_step E site st (u, ts)))) = trace (lw st) @ [Fetched u]"
    "lk_existing_ids (snd (lk_article_step E site st (u, ts))) = lk_existing_ids st"
    "new_articles (snd (lk_article_step E site st (u, ts))) = new_articles st"
    by (simp_all add: s)
next
  assume "fetch v = Some ipg \<and>
      ((if info_headline info \<noteq> [] then info_headline info else itn_title ipg) = [] \<or> itn_text ipg = [])"
  then show "scrape_individual_article E fetch v info = None"
    by (auto simp: scrape_individual_article_def Let_def)
next
  assume "scrape_individual_article E fetch (info_url info) info = None"
  then show "itn_collect E fetch all_articles info = all_articles"
    by (simp add: itn_collect_def)
qed

text \<open>
  The theorem at the second article of the example site of Lankadeepa, whose page has no
  content, and at an article page of ITN without text.
\<close>

theorem record_needs_headline_and_content_witness:
  "lk_article_step example_env example_site
      \<lparr>lw = empty_world, lk_existing_ids = [], new_articles = 0, skipped_articles = 0\<rparr> (example_url2, None)
     = (None, \<lparr>lw = \<lparr>files = Map.empty, ticks = Suc 0, trace = [Fetched example_url2]\<rparr>,
               lk_existing_ids = [], new_articles = 0, skipped_articles = 0\<rparr>)
   \<and> itn_collect example_env (\<lambda>u. Some \<lparr>itn_title = asc ''Final'', itn_text = [], itn_time = []\<rparr>) []
        \<lparr>info_url = asc ''https://www.itnnews.lk/a'', info_headline = asc ''Final'', info_date = []\<rparr> = []"
proof -
  let ?st = "\<lparr>lw = empty_world, lk_existing_ids = [], new_articles = 0, skipped_articles = 0\<rparr>"
  let ?pg = "\<lparr>pg_headline = asc ''Semi'', pg_date_part = None, pg_content = []\<rparr>"
  let ?fetch = "\<lambda>u::pystr. Some \<lparr>itn_title = asc ''Final'', itn_text = [], itn_time = []\<rparr>"
  let ?info = "\<lparr>info_url = asc ''https://www.itnnews.lk/a'', info_headline = asc ''Final'', info_date = []\<rparr>"
  let ?r = "lk_article_step example_env example_site ?st (example_url2, None)"
  have p: "article_page example_site example_url2 = Some ?pg"
    by (simp add: example_site_def example_url1_def example_url2_def asc_def)
  have c: "pg_headline ?pg = [] \<or> pg_content ?pg = []" by simp
  have e: "encode_url example_env example_url2 = Inr (hexdigest example_url2)"
    by (simp add: encode_url_def example_env_def example_url2_def asc_def utf8_char_def)
  have n: "hexdigest example_url2 \<notin> set (lk_existing_ids ?st)" by simp
  have f: "?fetch (info_url ?info) = Some \<lparr>itn_title = asc ''Final'', itn_text = [], itn_time = []\<rparr>" by simp
  note th = record_needs_headline_and_content[where site=example_site and u=example_url2 and pg="?pg" and E=example_env
      and i="hexdigest example_url2" and st="?st" and ts=None and fetch="?fetch"
      and v="info_url ?info" and ipg="\<lparr>itn_title = asc ''Final'', itn_text = [], itn_time = []\<rparr>"
      and info="?info" and all_articles="[]"]
  from th p c e n have A: "fst ?r = None" "files (lw (snd ?r)) = files (lw ?st)"
    "trace (lw (snd ?r)) = trace (lw ?st) @ [Fetched example_url2]"
    "lk_existing_ids (snd ?r) = lk_existing_ids ?st" "new_articles (snd ?r) = new_articles ?st"
    by blast+
  from th f have "scrape_individual_article example_env ?fetch (info_url ?info) ?info = None" by simp
  with th have B: "itn_collect example_env ?fetch [] ?info = []" by blast
  have t: "ticks (lw (snd ?r)) = Suc 0" "skipped_articles (snd ?r) = 0"
    by (simp_all add: lk_article_step_def e p scrape_article_def truthy_def now_iso_def Let_def empty_world_def)
  have "?r = (fst ?r, \<lparr>lw = \<lparr>files = files (lw (snd ?r)), ticks = ticks (lw (snd ?r)),
                              trace = trace (lw (snd ?r))\<rparr>,
                     lk_existing_ids = lk_existing_ids (snd ?r), new_articles = new_articles (snd ?r),
                     skipped_articles = skipped_articles (snd ?r)\<rparr>)"
    by (simp add: prod_eq_iff)
  then have "?r = (None, \<lparr>lw = \<lparr>files = Map.empty, ticks = Suc 0, trace = [Fetched example_url2]\<rparr>,
               lk_existing_ids = [], new_articles = 0, skipped_articles = 0\<rparr>)"
    unfolding A t by (simp add: empty_world_def)
  with B show ?thesis by blast
qed

lemma example_parse_empty:
  "parse_article example_env 0 example_item_empty c =
     (Inr \<lparr>id_str = asc ''73706f7274732f34'', source = asc ''hirunews'', headline = asc ''Final'',
           content = [], timestamp = asc ''2025-06-26T08:45:42'',
           url = asc ''https://hirunews.lk/sports/4''\<rparr>, 0)"
  by (simp add: parse_article_def get_md5_hash_def example_env_def example_item_empty_def
        dict_get_def asc_def utf8_char_def example_clock_def isoformat_def Let_def
        hexdigest_def hex_digit_def example_strptime_def valid_only_def parse_ymdhms_def
        is_digit_def valid_datetime_def days_in_month_def)

text \<open>
  Claim C7 as stated fails for hirunews: a run over a listing of one entry whose story is
  empty writes a record with empty content and saves its id in the Seen-Set.
\<close>

theorem hirunews_empty_story_counterexample:
  "dict_get example_item_empty (asc ''sinhala_story'') [] = []
   \<and> fst (scrape_category example_env (single_page_api example_item_empty) empty_world (asc ''Sports'') 1)
       = Inr 1
   \<and> files (snd (scrape_category example_env (single_page_api example_item_empty) empty_world
                    (asc ''Sports'') 1)) seen_file = Some (JsonStrList [asc ''73706f7274732f34''])
   \<and> files (snd (scrape_category example_env (single_page_api example_item_empty) empty_world
                    (asc ''Sports'') 1)) (asc ''2025-06-26_08_45_42_73706f7274732f34.json'')
       = Some (JsonStrObj
           [(asc ''id'', asc ''73706f7274732f34''), (asc ''source'', asc ''hirunews''),
            (asc ''headline'', asc ''Final''), (asc ''content'', []),
            (asc ''timestamp'', asc ''2025-06-26T08:45:42''),
            (asc ''url'', asc ''https://hirunews.lk/sports/4''), (asc ''category'', asc ''Sports'')])"
proof -
  let ?a = "\<lparr>id_str = asc ''73706f7274732f34'', source = asc ''hirunews'', headline = asc ''Final'',
           content = [], timestamp = asc ''2025-06-26T08:45:42'',
           url = asc ''https://hirunews.lk/sports/4''\<rparr>"
  let ?F = "asc ''2025-06-26_08_45_42_73706f7274732f34.json''"
  have e: "writable example_env = (\<lambda>name. True)" "storable example_env = (\<lambda>name. True)"
    by (simp_all add: example_env_def)
  have i: "fromisoformat example_env (py_replace (asc ''Z'') (asc ''+00:00'') (asc ''2025-06-26T08:45:42''))
     = Some (example_clock 0)"
    by (simp add: example_env_def example_fromisoformat_def valid_only_def valid_datetime_def
        days_in_month_def asc_def parse_ymdhms_def is_digit_def example_clock_def)
  have n: "strftime_file (example_clock 0) @ asc ''_'' @ asc ''73706f7274732f34'' @ asc ''.json'' = ?F"
    by (simp add: strftime_file_def example_clock_def asc_def)
  have enc: "doc_encodable (JsonStrObj (article_dict ?a (asc ''Sports'')))"
    by (simp add: article_dict_def encodable_def asc_def utf8_char_def)
  have s: "save_article example_env w ?a (asc ''Sports'') =
     (Inr ?F, w\<lparr>files := (files w)(?F \<mapsto> JsonStrObj (article_dict ?a (asc ''Sports''))),
               trace := trace w @ [Wrote ?F (asc ''73706f7274732f34'')]\<rparr>)" for w
    by (simp add: save_article_def i n write_json_def open_w_def dump_json_def e enc Let_def
          del: doc_encodable.simps)
  have p: "hiru_page_loop example_env (single_page_api example_item_empty) (asc ''Sports'') (Suc 0) (Suc 0)
             \<lparr>hw = empty_world, existing_ids = [], new_ids = [],
              page_new_articles = 0, total_new_articles = 0\<rparr> =
           \<lparr>hw = \<lparr>files = Map.empty(?F \<mapsto> JsonStrObj (article_dict ?a (asc ''Sports''))),
                  ticks = 0,
                  trace = [Requested (Suc 0), Wrote ?F (asc ''73706f7274732f34''),
                           Marked (asc ''73706f7274732f34'')]\<rparr>,
            existing_ids = [asc ''73706f7274732f34''], new_ids = [asc ''73706f7274732f34''],
            page_new_articles = Suc 0, total_new_articles = Suc 0\<rparr>"
    by (simp add: single_page_api_def hiru_article_step_def example_parse_empty s Let_def set_add_def
          empty_world_def)
  have l: "load_existing_ids (files empty_world) = Inr []"
    by (simp add: load_existing_ids_def empty_world_def)
  have ne: "?F \<noteq> seen_file" by (simp add: seen_file_def asc_def)
  have enc2: "encodable (asc ''73706f7274732f34'')"
    by (simp add: encodable_def asc_def utf8_char_def)
  have d: "dict_get example_item_empty (asc ''sinhala_story'') [] = []"
    by (simp add: example_item_empty_def dict_get_def asc_def)
  show ?thesis
    using ne
    by (simp add: d scrape_category_def l p save_existing_ids_def write_json_def open_w_def dump_json_def
          e enc2 del: hiru_page_loop.simps)
       (simp add: article_dict_def)
qed

subsection \<open>Timestamps\<close>

lemma parse_article_timestamp:
  assumes "parse_article E t d c = (Inr a, t')"
  shows "strptime E (dict_get d (asc ''sinhala_added_date'') []) (asc ''%Y-%m-%d %H:%M:%S'') = None
           \<Longrightarrow> timestamp a = isoformat (clock E t) \<and> t' = Suc t"
    and "strptime E (dict_get d (asc ''sinhala_added_date'') []) (asc ''%Y-%m-%d %H:%M:%S'') = Some dt
           \<Longrightarrow> timestamp a = isoformat dt \<and> t' = t"
  using assms by (auto simp: parse_article_def Let_def split: sum.splits)

lemma parse_article_same_record:
  assumes "strptime E (dict_get d1 (asc ''sinhala_added_date'') []) (asc ''%Y-%m-%d %H:%M:%S'') = Some (clock E t)"
      and "strptime E (dict_get d2 (asc ''sinhala_added_date'') []) (asc ''%Y-%m-%d %H:%M:%S'') = None"
      and "dict_get d1 (asc ''seourltitle'') [] = dict_get d2 (asc ''seourltitle'') []"
      and "dict_get d1 (asc ''sinhala_title'') [] = dict_get d2 (asc ''sinhala_title'') []"
      and "dict_get d1 (asc ''sinhala_story'') [] = dict_get d2 (asc ''sinhala_story'') []"
  shows "fst (parse_article E t d1 c) = fst (parse_article E t d2 c)"
  using assms by (auto simp: parse_article_def Let_def split: sum.splits)

lemma split_on_acc_nonempty: "split_on_acc c w s \<noteq> []"
  by (induction s arbitrary: w) auto

lemma nf_format_timestamp_unparsed:
  assumes "length (split_on 45 (hd (split_on 84 s))) \<noteq> 3"
  shows "nf_format_timestamp s = s"
proof -
  obtain p ps where ps: "split_on 84 s = p # ps"
    using split_on_acc_nonempty[of 84 "[]" s] by (cases "split_on 84 s") (auto simp: split_on_def)
  with assms have l: "length (split_on 45 p) \<noteq> 3" by simp
  have "(case split_on 45 p of [a, b, c] \<Rightarrow> f a b c | _ \<Rightarrow> s) = s" for f :: "pystr \<Rightarrow> pystr \<Rightarrow> pystr \<Rightarrow> pystr"
    using l by (auto split: list.splits)
  then show ?thesis by (simp add: nf_format_timestamp_def ps Let_def)
qed

text \<open>
  Claim C9, as amended. What each scraper stores for a date text it cannot parse, and
  that nothing tags it. hirunews: when \<^verbatim>\<open>strptime\<close> rejects the date text the
  timestamp is the ISO form of the current time, and when it accepts, the ISO form of the
  parsed time; both are stored as the plain string \<^verbatim>\<open>timestamp\<close> and the record has
  no other field that tells them apart, an entry whose date text is rejected yielding the
  same record as an entry whose date text parses to the reading of the clock. Lankadeepa:
  \<^verbatim>\<open>parse_sinhala_date\<close> returns the ISO form of the current time for a text of fewer
  than four parts only; for a text of four parts or more it does not read the clock and
  returns the string built from the first part, the month number (\<^verbatim>\<open>01\<close> for an
  unknown month word) and the fourth part, whatever these parts are. ITN and news_first
  have no fallback to the current time: \<^verbatim>\<open>format_timestamp\<close> of ITN returns the text
  as it came when the text lacks \<^verbatim>\<open>T\<close> or \<^verbatim>\<open>+\<close> or \<^verbatim>\<open>fromisoformat\<close>
  rejects it, and \<^verbatim>\<open>format_timestamp\<close> of news_first returns the text as it came
  when the part before the first \<^verbatim>\<open>T\<close> does not split at \<^verbatim>\<open>-\<close> into three pieces.
\<close>

theorem fallback_timestamp_untagged:
  "(strptime E (dict_get d (asc ''sinhala_added_date'') []) (asc ''%Y-%m-%d %H:%M:%S'') = None \<and>
    parse_article E t d c = (Inr a, t') \<longrightarrow> timestamp a = isoformat (clock E t))
   \<and> (strptime E (dict_get d (asc ''sinhala_added_date'') []) (asc ''%Y-%m-%d %H:%M:%S'') = Some dt \<and>
    parse_article E t d c = (Inr a, t') \<longrightarrow> timestamp a = isoformat dt)
   \<and> (length (py_split (py_strip s)) < 4 \<longrightarrow> fst (parse_sinhala_date E t s) = isoformat (clock E t))
   \<and> (strptime E (dict_get d1 (asc ''sinhala_added_date'') []) (asc ''%Y-%m-%d %H:%M:%S'') = Some (clock E t) \<and>
      strptime E (dict_get d2 (asc ''sinhala_added_date'') []) (asc ''%Y-%m-%d %H:%M:%S'') = None \<and>
      dict_get d1 (asc ''seourltitle'') [] = dict_get d2 (asc ''seourltitle'') [] \<and>
      dict_get d1 (asc ''sinhala_title'') [] = dict_get d2 (asc ''sinhala_title'') [] \<and>
      dict_get d1 (asc ''sinhala_story'') [] = dict_get d2 (asc ''sinhala_story'') []
      \<longrightarrow> fst (parse_article E t d1 c) = fst (parse_article E t d2 c))
   \<and> (4 \<le> length (py_split (py_strip s4)) \<longrightarrow>
        parse_sinhala_date E t s4 =
          (py_split (py_strip s4) ! 0 @ asc ''-'' @
           (case map_of sinhala_months (py_split (py_strip s4) ! 1) of Some m \<Rightarrow> m | None \<Rightarrow> asc ''01'') @
           asc ''-'' @ zfill (py_split (py_strip s4) ! 3) 2 @ asc ''T00:00:00'', t))
   \<and> (84 \<notin> set si \<or> 43 \<notin> set si \<or> fromisoformat E (py_replace (asc ''+05:30'') [] si) = None
        \<longrightarrow> format_timestamp E si = si)
   \<and> (length (split_on 45 (hd (split_on 84 sn))) \<noteq> 3 \<longrightarrow> nf_format_timestamp sn = sn)"
proof (intro conjI impI)
  assume "strptime E (dict_get d (asc ''sinhala_added_date'') []) (asc ''%Y-%m-%d %H:%M:%S'') = None \<and>
    parse_article E t d c = (Inr a, t')"
  then show "timestamp a = isoformat (clock E t)" using parse_article_timestamp(1) by blast
next
  assume "strptime E (dict_get d (asc ''sinhala_added_date'') []) (asc ''%Y-%m-%d %H:%M:%S'') = Some dt \<and>
    parse_article E t d c = (Inr a, t')"
  then show "timestamp a = isoformat dt" using parse_article_timestamp(2) by blast
next
  assume "length (py_split (py_strip s)) < 4"
  then show "fst (parse_sinhala_date E t s) = isoformat (clock E t)"
    by (simp add: parse_sinhala_date_def now_iso_def Let_def)
next
  assume "strptime E (dict_get d1 (asc ''sinhala_added_date'') []) (asc ''%Y-%m-%d %H:%M:%S'') = Some (clock E t) \<and>
      strptime E (dict_get d2 (asc ''sinhala_added_date'') []) (asc ''%Y-%m-%d %H:%M:%S'') = None \<and>
      dict_get d1 (asc ''seourltitle'') [] = dict_get d2 (asc ''seourltitle'') [] \<and>
      dict_get d1 (asc ''sinhala_title'') [] = dict_get d2 (asc ''sinhala_title'') [] \<and>
      dict_get d1 (asc ''sinhala_story'') [] = dict_get d2 (asc ''sinhala_story'') []"
  then show "fst (parse_article E t d1 c) = fst (parse_article E t d2 c)"
    using parse_article_same_record by blast
next
  assume "4 \<le> length (py_split (py_strip s4))"
  then show "parse_sinhala_date E t s4 =
          (py_split (py_strip s4) ! 0 @ asc ''-'' @
           (case map_of sinhala_months (py_split (py_strip s4) ! 1) of Some m \<Rightarrow> m | None \<Rightarrow> asc ''01'') @
           asc ''-'' @ zfill (py_split (py_strip s4) ! 3) 2 @ asc ''T00:00:00'', t)"
    by (simp add: parse_sinhala_date_def Let_def)
next
  assume "84 \<notin> set si \<or> 43 \<notin> set si \<or> fromisoformat E (py_replace (asc ''+05:30'') [] si) = None"
  then show "format_timestamp E si = si"
    by (auto simp: format_timestamp_def)
next
  assume "length (split_on 45 (hd (split_on 84 sn))) \<noteq> 3"
  then show "nf_format_timestamp sn = sn" by (rule nf_format_timestamp_unparsed)
qed

lemma example_dates:
  "strptime example_env (dict_get example_item (asc ''sinhala_added_date'') []) (asc ''%Y-%m-%d %H:%M:%S'')
     = Some (clock example_env 0)"
  "strptime example_env (dict_get example_item_undated (asc ''sinhala_added_date'') []) (asc ''%Y-%m-%d %H:%M:%S'')
     = None"
  by (simp_all add: example_env_def example_item_def example_item_undated_def dict_get_def asc_def
        parse_ymdhms_def example_clock_def is_digit_def example_strptime_def valid_only_def
        valid_datetime_def days_in_month_def)

lemma example_parse:
  "parse_article example_env 0 example_item [] =
     (Inr \<lparr>id_str = hexdigest (asc ''sports/1''), source = asc ''hirunews'', headline = asc ''Final'',
           content = asc ''Story'', timestamp = asc ''2025-06-26T08:45:42'',
           url = asc ''https://hirunews.lk/sports/1''\<rparr>, 0)"
  "parse_article example_env 0 example_item_undated [] =
     (Inr \<lparr>id_str = hexdigest (asc ''sports/1''), source = asc ''hirunews'', headline = asc ''Final'',
           content = asc ''Story'', timestamp = asc ''2025-06-26T08:45:42'',
           url = asc ''https://hirunews.lk/sports/1''\<rparr>, 1)"
  by (simp_all add: parse_article_def get_md5_hash_def example_env_def example_item_def
        example_item_undated_def dict_get_def asc_def utf8_char_def parse_ymdhms_def example_clock_def
        is_digit_def isoformat_def Let_def example_strptime_def valid_only_def
        valid_datetime_def days_in_month_def)

text \<open>
  The theorem at the two listing entries of the examples, one dated and one not, and at
  date texts that Lankadeepa, ITN and news_first cannot parse.
\<close>

theorem fallback_timestamp_untagged_witness:
  "timestamp (projr (fst (parse_article example_env 0 example_item_undated []))) = isoformat (example_clock 0)
   \<and> timestamp (projr (fst (parse_article example_env 0 example_item []))) = isoformat (example_clock 0)
   \<and> fst (parse_sinhala_date example_env 0 (asc ''just now'')) = isoformat (example_clock 0)
   \<and> fst (parse_article example_env 0 example_item []) = fst (parse_article example_env 0 example_item_undated [])
   \<and> parse_sinhala_date example_env 0 (asc ''Sunday, 22 June 2025'') = (asc ''Sunday,-01-2025T00:00:00'', 0)
   \<and> format_timestamp example_env (asc ''2 hours ago'') = asc ''2 hours ago''
   \<and> format_timestamp example_env (asc ''2025-06-99T22:13:33+05:30'') = asc ''2025-06-99T22:13:33+05:30''
   \<and> nf_format_timestamp (asc ''2 hours ago'') = asc ''2 hours ago''"
proof -
  have c: "clock example_env = example_clock" by (simp add: example_env_def)
  have l: "length (py_split (py_strip (asc ''just now''))) < 4"
    by (simp add: py_split_def py_strip_def asc_def py_isspace_def)
  have same: "dict_get example_item (asc ''seourltitle'') [] = dict_get example_item_undated (asc ''seourltitle'') []"
    "dict_get example_item (asc ''sinhala_title'') [] = dict_get example_item_undated (asc ''sinhala_title'') []"
    "dict_get example_item (asc ''sinhala_story'') [] = dict_get example_item_undated (asc ''sinhala_story'') []"
    by (simp_all add: example_item_def example_item_undated_def dict_get_def asc_def)
  have p4: "py_split (py_strip (asc ''Sunday, 22 June 2025'')) =
              [asc ''Sunday,'', asc ''22'', asc ''June'', asc ''2025'']"
    by (simp add: py_split_def py_strip_def asc_def py_isspace_def)
  have m4: "map_of sinhala_months (asc ''22'') = None"
    by (simp add: sinhala_months_def asc_def)
  have i1: "84 \<notin> set (asc ''2 hours ago'')" by (simp add: asc_def)
  have i2: "fromisoformat example_env (py_replace (asc ''+05:30'') [] (asc ''2025-06-99T22:13:33+05:30'')) = None"
    by (simp add: example_env_def example_fromisoformat_def valid_only_def parse_ymdhms_def asc_def
          is_digit_def valid_datetime_def days_in_month_def)
  have n1: "length (split_on 45 (hd (split_on 84 (asc ''2 hours ago'')))) \<noteq> 3"
    by (simp add: split_on_def asc_def)
  note t1 = fallback_timestamp_untagged[where E=example_env and d=example_item_undated and t=0 and c="[]"
      and a="projr (fst (parse_article example_env 0 example_item_undated []))" and t'=1
      and s="asc ''just now''" and ?d1.0=example_item and ?d2.0=example_item_undated
      and ?s4.0="asc ''Sunday, 22 June 2025''" and si="asc ''2 hours ago''" and sn="asc ''2 hours ago''"]
  note t2 = fallback_timestamp_untagged[where E=example_env and d=example_item and t=0 and c="[]"
      and a="projr (fst (parse_article example_env 0 example_item []))" and t'=0
      and dt="clock example_env 0" and si="asc ''2025-06-99T22:13:33+05:30''"]
  from t1 example_dates example_parse(2)
  have A: "timestamp (projr (fst (parse_article example_env 0 example_item_undated []))) = isoformat (example_clock 0)"
    by (simp add: c)
  from t2 example_dates example_parse(1)
  have B: "timestamp (projr (fst (parse_article example_env 0 example_item []))) = isoformat (example_clock 0)"
    by (simp add: c)
  from t1 l have C: "fst (parse_sinhala_date example_env 0 (asc ''just now'')) = isoformat (example_clock 0)"
    by (simp add: c)
  from t1 example_dates same
  have D: "fst (parse_article example_env 0 example_item []) = fst (parse_article example_env 0 example_item_undated [])"
    by blast
  from t1 have "4 \<le> length (py_split (py_strip (asc ''Sunday, 22 June 2025''))) \<longrightarrow>
        parse_sinhala_date example_env 0 (asc ''Sunday, 22 June 2025'') =
          (py_split (py_strip (asc ''Sunday, 22 June 2025'')) ! 0 @ asc ''-'' @
           (case map_of sinhala_months (py_split (py_strip (asc ''Sunday, 22 June 2025'')) ! 1) of
              Some m \<Rightarrow> m | None \<Rightarrow> asc ''01'') @
           asc ''-'' @ zfill (py_split (py_strip (asc ''Sunday, 22 June 2025'')) ! 3) 2 @ asc ''T00:00:00'', 0)"
    by blast
  then have F: "parse_sinhala_date example_env 0 (asc ''Sunday, 22 June 2025'') =
      (asc ''Sunday,-01-2025T00:00:00'', 0)"
    unfolding p4 by (simp add: m4) (simp add: asc_def zfill_def)
  from t1 i1 have G: "format_timestamp example_env (asc ''2 hours ago'') = asc ''2 hours ago''" by blast
  from t2 i2 have H: "format_timestamp example_env (asc ''2025-06-99T22:13:33+05:30'') =
      asc ''2025-06-99T22:13:33+05:30''" by blast
  from t1 n1 have I: "nf_format_timestamp (asc ''2 hours ago'') = asc ''2 hours ago''" by blast
  from A B C D F G H I show ?thesis by blast
qed

text \<open>
  Claim C9 as stated fails: of two listing entries, one with a date text that parses and
  one without, hirunews builds the same record, so that nothing in it tells the parsed
  timestamp from the fallback.
\<close>

theorem fallback_timestamp_counterexample:
  "strptime example_env (dict_get example_item (asc ''sinhala_added_date'') []) (asc ''%Y-%m-%d %H:%M:%S'') \<noteq> None
   \<and> strptime example_env (dict_get example_item_undated (asc ''sinhala_added_date'') []) (asc ''%Y-%m-%d %H:%M:%S'') = None
   \<and> fst (parse_article example_env 0 example_item []) = fst (parse_article example_env 0 example_item_undated [])"
  by (simp add: example_dates example_parse)

subsection \<open>Writing an article record twice\<close>




lemma hexdigest_example: "hexdigest (asc ''sports/1'') = asc ''73706f7274732f31''"
  by (simp add: hexdigest_def hex_digit_def asc_def)













subsection \<open>Saving the Seen-Set\<close>

text \<open>
  Claim C4, as amended. Saving the Seen-Set writes \<^verbatim>\<open>existing_ids.json\<close> in place:
  the file is opened for writing under its own name, which empties it, and the list is
  then dumped into it. No other name of the directory is touched at any step, so there
  is no temporary file and no rename, and between the two steps a reader finds an empty
  file, which hirunews and news_first load as the empty set and on which Lankadeepa
  raises. Where the file cannot be opened the save raises and nothing has changed. Where
  the dump fails after the file has been opened, because an id has no UTF-8 encoding or
  the file cannot be stored, the save raises and leaves the file empty or cut short, the
  previous Seen-Set lost. Otherwise the save returns and the file holds the saved set.
\<close>

theorem save_existing_ids_in_place:
  "save_existing_ids_steps E d ids =
     (if \<not> writable E seen_file then [d]
      else if list_all encodable ids \<and> storable E seen_file
           then [d, d(seen_file \<mapsto> NotJson), d(seen_file \<mapsto> JsonStrList ids)]
           else [d, d(seen_file \<mapsto> NotJson)])
   \<and> save_existing_ids E d ids =
     (if \<not> writable E seen_file then Some OSError
      else if \<not> list_all encodable ids then Some UnicodeEncodeError
      else if \<not> storable E seen_file then Some OSError
      else None,
      last (save_existing_ids_steps E d ids))
   \<and> list_all (\<lambda>s. \<forall>name. name \<noteq> seen_file \<longrightarrow> s name = d name) (save_existing_ids_steps E d ids)
   \<and> load_existing_ids (d(seen_file \<mapsto> NotJson)) = Inr []
   \<and> lk_load_existing_ids (d(seen_file \<mapsto> NotJson)) = Inl JSONDecodeError
   \<and> load_existing_ids (d(seen_file \<mapsto> JsonStrList ids)) = Inr (remdups ids)"
  by (simp add: save_existing_ids_steps_def save_existing_ids_def write_json_steps_def write_json_def
        open_w_def dump_json_def load_existing_ids_def lk_load_existing_ids_def)

text \<open>
  The theorem at a Seen-Set of one id that grows to two, and at one that grows by an id
  holding a lone surrogate, as \<^verbatim>\<open>json.load\<close> returns for an escaped code point U+D800.
\<close>

theorem save_existing_ids_in_place_witness:
  "save_existing_ids_steps example_env (Map.empty(seen_file \<mapsto> JsonStrList [asc ''a'']))
       [asc ''a'', asc ''b''] =
     [Map.empty(seen_file \<mapsto> JsonStrList [asc ''a'']), Map.empty(seen_file \<mapsto> NotJson),
      Map.empty(seen_file \<mapsto> JsonStrList [asc ''a'', asc ''b''])]
   \<and> last (save_existing_ids_steps example_env (Map.empty(seen_file \<mapsto> JsonStrList [asc ''a'']))
       [asc ''a'', asc ''b'']) (asc ''existing_ids.json.tmp'') = None
   \<and> save_existing_ids example_env (Map.empty(seen_file \<mapsto> JsonStrList [asc ''a'']))
       [asc ''a'', [55296]] = (Some UnicodeEncodeError, Map.empty(seen_file \<mapsto> NotJson))"
proof -
  let ?d = "Map.empty(seen_file \<mapsto> JsonStrList [asc ''a''])"
  have w: "writable example_env seen_file" "storable example_env seen_file"
    by (simp_all add: example_env_def)
  have e: "list_all encodable [asc ''a'', asc ''b'']" "\<not> list_all encodable [asc ''a'', [55296]]"
    by (simp_all add: encodable_def asc_def utf8_char_def)
  have n: "asc ''existing_ids.json.tmp'' \<noteq> seen_file" by (simp add: seen_file_def asc_def)
  note th = save_existing_ids_in_place[of example_env ?d "[asc ''a'', asc ''b'']"]
  note th2 = save_existing_ids_in_place[of example_env ?d "[asc ''a'', [55296]]"]
  from th w e(1) have s: "save_existing_ids_steps example_env ?d [asc ''a'', asc ''b''] =
     [?d, Map.empty(seen_file \<mapsto> NotJson), Map.empty(seen_file \<mapsto> JsonStrList [asc ''a'', asc ''b''])]"
    by simp
  from th have "list_all (\<lambda>s. \<forall>name. name \<noteq> seen_file \<longrightarrow> s name = ?d name)
           (save_existing_ids_steps example_env ?d [asc ''a'', asc ''b''])" by blast
  with n have t: "last (save_existing_ids_steps example_env ?d [asc ''a'', asc ''b''])
       (asc ''existing_ids.json.tmp'') = None"
    unfolding s by simp
  from th2 w e(2) have "save_existing_ids_steps example_env ?d [asc ''a'', [55296]] =
     [?d, Map.empty(seen_file \<mapsto> NotJson)]" by simp
  moreover from th2 w e(2) have "save_existing_ids example_env ?d [asc ''a'', [55296]] =
     (Some UnicodeEncodeError, last (save_existing_ids_steps example_env ?d [asc ''a'', [55296]]))"
    by simp
  ultimately have u: "save_existing_ids example_env ?d [asc ''a'', [55296]] =
     (Some UnicodeEncodeError, Map.empty(seen_file \<mapsto> NotJson))" by simp
  from s t u show ?thesis by blast
qed

text \<open>
  Claim C4 as stated fails: while a Seen-Set of one id is replaced by one of two, the
  directory passes through a state in which the file is neither, and at no step does
  the directory hold a second file, temporary or other.
\<close>

theorem save_not_atomic_counterexample:
  "save_existing_ids_steps example_env (Map.empty(seen_file \<mapsto> JsonStrList [asc ''a'']))
       [asc ''a'', asc ''b''] ! 1 = Map.empty(seen_file \<mapsto> NotJson)
   \<and> load_existing_ids (Map.empty(seen_file \<mapsto> NotJson)) = Inr []
   \<and> list_all (\<lambda>s. dom s = {seen_file})
        (save_existing_ids_steps example_env (Map.empty(seen_file \<mapsto> JsonStrList [asc ''a'']))
           [asc ''a'', asc ''b''])"
  by (simp add: save_existing_ids_steps_def write_json_steps_def open_w_def dump_json_def
        example_env_def load_existing_ids_def encodable_def asc_def utf8_char_def)

subsection \<open>Candidates that are in the Seen-Set\<close>

















end
